theory Spec2Isabelle
  imports Complex_Main
begin

section \<open>Online Galton Board: the simulation of \<^verbatim>\<open>script.js\<close>\<close>

text \<open>
  \<^verbatim>\<open>script.js\<close> registers two \<^verbatim>\<open>DOMContentLoaded\<close> handlers. The second one
  (lines 355 to 931) is the documented variant with the \<^verbatim>\<open>isSettling\<close> flag and the
  input validation; it is the one embedded here, function by function, under the names
  of the source. Its variables live in the closure of the handler and become the fields
  of one record that every function takes and returns.

  What the embedding leaves to the browser: the drawing calls on the 2D context (they
  assign no variable of the program), the delay of the spawn timer and the time between
  two frames (a run is a sequence of frame and timer events in any order), and the
  rounding of the drawing surface's \<^verbatim>\<open>width\<close> and \<^verbatim>\<open>height\<close> attributes. The listeners
  for a changed input and a resized window call \<^verbatim>\<open>resetSimulation\<close> while no run is
  active and do nothing during a run.
\<close>

subsection \<open>Numbers\<close>

text \<open>
  A JavaScript number is modelled as a real number or \<^verbatim>\<open>NaN\<close>. Arithmetic on reals is
  exact (the rounding of IEEE doubles and the infinities are not modelled), \<^verbatim>\<open>NaN\<close>
  propagates through every operation and every comparison with \<^verbatim>\<open>NaN\<close> is false.
  A division by zero, which the program never performs (its divisors are the row count
  plus 3.5, with an integral row count, and the constants 40 and 2), gives \<^verbatim>\<open>NaN\<close>.
\<close>

datatype jsnum = Num real | NaN

instantiation jsnum :: "{plus, minus, uminus, times, inverse, abs, sgn, ord}"
begin

fun plus_jsnum :: "jsnum \<Rightarrow> jsnum \<Rightarrow> jsnum" where
  "plus_jsnum (Num a) (Num b) = Num (a + b)"
| "plus_jsnum _ _ = NaN"

fun minus_jsnum :: "jsnum \<Rightarrow> jsnum \<Rightarrow> jsnum" where
  "minus_jsnum (Num a) (Num b) = Num (a - b)"
| "minus_jsnum _ _ = NaN"

fun uminus_jsnum :: "jsnum \<Rightarrow> jsnum" where
  "uminus_jsnum (Num a) = Num (- a)"
| "uminus_jsnum NaN = NaN"

fun times_jsnum :: "jsnum \<Rightarrow> jsnum \<Rightarrow> jsnum" where
  "times_jsnum (Num a) (Num b) = Num (a * b)"
| "times_jsnum _ _ = NaN"

fun divide_jsnum :: "jsnum \<Rightarrow> jsnum \<Rightarrow> jsnum" where
  "divide_jsnum (Num a) (Num b) = (if b = 0 then NaN else Num (a / b))"
| "divide_jsnum _ _ = NaN"

fun inverse_jsnum :: "jsnum \<Rightarrow> jsnum" where
  "inverse_jsnum (Num a) = (if a = 0 then NaN else Num (inverse a))"
| "inverse_jsnum NaN = NaN"

fun abs_jsnum :: "jsnum \<Rightarrow> jsnum" where
  "abs_jsnum (Num a) = Num \<bar>a\<bar>"
| "abs_jsnum NaN = NaN"

fun sgn_jsnum :: "jsnum \<Rightarrow> jsnum" where
  "sgn_jsnum (Num a) = Num (sgn a)"
| "sgn_jsnum NaN = NaN"

fun less_jsnum :: "jsnum \<Rightarrow> jsnum \<Rightarrow> bool" where
  "less_jsnum (Num a) (Num b) = (a < b)"
| "less_jsnum _ _ = False"

fun less_eq_jsnum :: "jsnum \<Rightarrow> jsnum \<Rightarrow> bool" where
  "less_eq_jsnum (Num a) (Num b) = (a \<le> b)"
| "less_eq_jsnum _ _ = False"

instance ..

end

text \<open>\<^verbatim>\<open>Math.sqrt\<close>, \<^verbatim>\<open>Math.abs\<close>, \<^verbatim>\<open>Math.sign\<close>, and the number that \<^verbatim>\<open>parseInt\<close> returned
  (\<open>None\<close> stands for \<^verbatim>\<open>NaN\<close>) used in arithmetic.\<close>

fun Math_sqrt :: "jsnum \<Rightarrow> jsnum" where
  "Math_sqrt (Num a) = (if a < 0 then NaN else Num (sqrt a))"
| "Math_sqrt NaN = NaN"

definition Math_abs :: "jsnum \<Rightarrow> jsnum" where
  "Math_abs a = \<bar>a\<bar>"

definition Math_sign :: "jsnum \<Rightarrow> jsnum" where
  "Math_sign a = sgn a"

fun num :: "int option \<Rightarrow> jsnum" where
  "num (Some n) = Num (of_int n)"
| "num None = NaN"

subsection \<open>Data\<close>

record peg =
  peg_x :: jsnum
  peg_y :: jsnum
  peg_radius :: jsnum

record bin =
  bin_x :: jsnum
  bin_y :: jsnum
  bin_width :: jsnum
  bin_height :: jsnum
  bin_count :: int
  bin_maxCapacity :: int

record ball =
  ball_x :: jsnum
  ball_y :: jsnum
  ball_radius :: jsnum
  ball_color :: string
  ball_vx :: jsnum
  ball_vy :: jsnum
  ball_landed :: bool
  ball_isSettling :: bool

text \<open>
  The variables of the handler. The three input fields hold what \<^verbatim>\<open>parseInt\<close> returns on
  their text. \<open>ballsDroppedThisSession\<close> is the local variable of \<^verbatim>\<open>startSimulation\<close>
  that \<^verbatim>\<open>tryDropBall\<close> closes over. \<open>alerts\<close> collects the messages passed to
  \<^verbatim>\<open>alert\<close>. \<^verbatim>\<open>Math.random()\<close> returns \<open>random_draws\<close> at \<open>random_next\<close>;
  \<^verbatim>\<open>requestAnimationFrame\<close> and \<^verbatim>\<open>setInterval\<close> return the successor of \<open>last_handle\<close>,
  a nonzero number as the browser's handles are.
\<close>

record sim =
  numRowsInput_value :: "int option"
  numBallsInput_value :: "int option"
  binCapacityInput_value :: "int option"
  window_innerWidth :: jsnum
  startButton_disabled :: bool
  resetButton_disabled :: bool
  numRowsInput_disabled :: bool
  numBallsInput_disabled :: bool
  binCapacityInput_disabled :: bool
  canvas_width :: jsnum
  canvas_height :: jsnum
  canvas_style_maxWidth :: jsnum
  NUM_ROWS :: "int option"
  currentPegSpacingX :: jsnum
  currentPegSpacingY :: jsnum
  currentStartYOffset :: jsnum
  currentPegRadius :: jsnum
  currentBallRadius :: jsnum
  currentDrawnBinHeight :: jsnum
  currentSpaceBelowPegs :: jsnum
  currentBottomPadding :: jsnum
  scaleFactor :: jsnum
  pegs :: "peg list"
  balls :: "ball list"
  bins :: "bin list"
  animationFrameId :: "nat option"
  ballsBeingDropped :: int
  ballsToDropTotal :: "int option"
  dropIntervalId :: "nat option"
  ballsDroppedThisSession :: int
  alerts :: "string list"
  random_draws :: "nat \<Rightarrow> real"
  random_next :: nat
  last_handle :: nat

subsection \<open>Constants\<close>

definition BASE_PEG_RADIUS :: jsnum where "BASE_PEG_RADIUS = Num 6"
definition BASE_BALL_RADIUS :: jsnum where "BASE_BALL_RADIUS = Num 5"
definition BASE_PEG_SPACING_X :: jsnum where "BASE_PEG_SPACING_X = Num 40"
definition BASE_PEG_SPACING_Y :: jsnum where "BASE_PEG_SPACING_Y = Num 30"
definition BASE_START_Y_OFFSET :: jsnum where "BASE_START_Y_OFFSET = Num 30"
definition BASE_DRAWN_BIN_HEIGHT :: jsnum where "BASE_DRAWN_BIN_HEIGHT = Num 60"
definition BASE_SPACE_BELOW_PEGS :: jsnum where "BASE_SPACE_BELOW_PEGS = BASE_PEG_SPACING_Y"
definition BASE_BOTTOM_PADDING :: jsnum where "BASE_BOTTOM_PADDING = Num 40"
definition BALL_COLOR :: string where "BALL_COLOR = ''#2980b9''"
definition GRAVITY :: jsnum where "GRAVITY = Num 0.15"
definition BOUNCE_FACTOR :: jsnum where "BOUNCE_FACTOR = Num 0.1"
definition HORIZONTAL_BUMP :: jsnum where "HORIZONTAL_BUMP = Num 1.5"
definition CANVAS_MARGIN_LEFT :: jsnum where "CANVAS_MARGIN_LEFT = Num 10"
definition CANVAS_MARGIN_RIGHT :: jsnum where "CANVAS_MARGIN_RIGHT = Num 10"

subsection \<open>Geometry layout: \<^verbatim>\<open>resizeCanvas\<close>\<close>

definition resizeCanvas :: "sim \<Rightarrow> sim" where
  "resizeCanvas st =
    (let rows = numRowsInput_value st;
         viewportWidth = window_innerWidth st;
         availableWidthForCanvasElement = viewportWidth - CANVAS_MARGIN_LEFT - CANVAS_MARGIN_RIGHT;
         idealContentWidthUnscaled = (num rows + Num 3.5) * BASE_PEG_SPACING_X;
         finalCanvasWidth0 =
           (if idealContentWidthUnscaled > availableWidthForCanvasElement
            then availableWidthForCanvasElement else idealContentWidthUnscaled);
         pegSpacingX0 = finalCanvasWidth0 / (num rows + Num 3.5);
         minPegSpacingX = BASE_PEG_RADIUS * Num 3;
         pegSpacingX = (if pegSpacingX0 < minPegSpacingX then minPegSpacingX else pegSpacingX0);
         finalCanvasWidth =
           (if pegSpacingX0 < minPegSpacingX then (num rows + Num 3.5) * pegSpacingX
            else finalCanvasWidth0);
         scale = pegSpacingX / BASE_PEG_SPACING_X;
         pegSpacingY = BASE_PEG_SPACING_Y * scale;
         startYOffset = BASE_START_Y_OFFSET * scale;
         pegRadius = BASE_PEG_RADIUS * scale;
         ballRadius = BASE_BALL_RADIUS * scale;
         drawnBinHeight = BASE_DRAWN_BIN_HEIGHT * scale;
         spaceBelowPegs = BASE_SPACE_BELOW_PEGS * scale;
         bottomPadding = BASE_BOTTOM_PADDING * scale
     in st\<lparr>NUM_ROWS := rows,
           currentPegSpacingX := pegSpacingX,
           scaleFactor := scale,
           currentPegSpacingY := pegSpacingY,
           currentStartYOffset := startYOffset,
           currentPegRadius := pegRadius,
           currentBallRadius := ballRadius,
           currentDrawnBinHeight := drawnBinHeight,
           currentSpaceBelowPegs := spaceBelowPegs,
           currentBottomPadding := bottomPadding,
           canvas_width := finalCanvasWidth,
           canvas_height := startYOffset + (num rows - Num 1) * pegSpacingY + pegRadius
                            + spaceBelowPegs + drawnBinHeight + bottomPadding,
           canvas_style_maxWidth := finalCanvasWidth\<rparr>)"

subsection \<open>Board builder: \<^verbatim>\<open>initPegs\<close>, \<^verbatim>\<open>initBins\<close>\<close>

text \<open>A loop \<^verbatim>\<open>for (i = 0; i < n; i++)\<close> whose bound is the number \<open>n\<close> runs over
  \<open>loop_indices n\<close>: no index when the bound is \<^verbatim>\<open>NaN\<close> or not positive.\<close>

fun loop_indices :: "int option \<Rightarrow> nat list" where
  "loop_indices (Some n) = [0..<nat n]"
| "loop_indices None = []"

text \<open>The pegs the inner loop pushes for one row.\<close>

definition initPegs_row :: "sim \<Rightarrow> nat \<Rightarrow> peg list" where
  "initPegs_row st row =
    (let firstPegRowCenterY = currentStartYOffset st;
         numPegsInRow = row + 1;
         rowWidth = (Num (real numPegsInRow) - Num 1) * currentPegSpacingX st;
         startX = (canvas_width st - rowWidth) / Num 2
     in map (\<lambda>col. \<lparr>peg_x = startX + Num (real col) * currentPegSpacingX st,
                     peg_y = firstPegRowCenterY + Num (real row) * currentPegSpacingY st,
                     peg_radius = currentPegRadius st\<rparr>) [0..<numPegsInRow])"

definition initPegs :: "sim \<Rightarrow> sim" where
  "initPegs st = st\<lparr>pegs := concat (map (initPegs_row st) (loop_indices (NUM_ROWS st)))\<rparr>"

text \<open>\<^verbatim>\<open>parseInt(binCapacityInput.value) || 100\<close>: \<^verbatim>\<open>NaN\<close> and 0 are falsy.\<close>

fun or_default :: "int option \<Rightarrow> int \<Rightarrow> int" where
  "or_default None d = d"
| "or_default (Some n) d = (if n = 0 then d else n)"

definition initBins :: "sim \<Rightarrow> sim" where
  "initBins st =
    (let numBins = map_option (\<lambda>n. n + 1) (NUM_ROWS st);
         binWidth = currentPegSpacingX st;
         lastPegRowCenterY = currentStartYOffset st + (num (NUM_ROWS st) - Num 1) * currentPegSpacingY st;
         binsTopY = lastPegRowCenterY + currentPegRadius st + currentSpaceBelowPegs st;
         totalBinsWidth = num numBins * binWidth;
         firstBinX = (canvas_width st - totalBinsWidth) / Num 2
     in st\<lparr>bins := map (\<lambda>i. \<lparr>bin_x = firstBinX + Num (real i) * binWidth,
                               bin_y = binsTopY,
                               bin_width = binWidth,
                               bin_height = currentDrawnBinHeight st,
                               bin_count = 0,
                               bin_maxCapacity = or_default (binCapacityInput_value st) 100\<rparr>)
                       (loop_indices numBins)\<rparr>)"

subsection \<open>Ball entity factory: \<^verbatim>\<open>createBall\<close>\<close>

definition Math_random :: "sim \<Rightarrow> jsnum \<times> sim" where
  "Math_random st =
    (Num (random_draws st (random_next st)), st\<lparr>random_next := Suc (random_next st)\<rparr>)"

definition createBall :: "sim \<Rightarrow> ball \<times> sim" where
  "createBall st =
    (let firstPegX = (if length (pegs st) > 0 then peg_x (pegs st ! 0)
                      else canvas_width st / Num 2);
         (u, st1) = Math_random st
     in (\<lparr>ball_x = firstPegX,
          ball_y = currentStartYOffset st - currentPegSpacingY st,
          ball_radius = currentBallRadius st,
          ball_color = BALL_COLOR,
          ball_vx = (u - Num 0.5) * Num 0.5,
          ball_vy = Num 0,
          ball_landed = False,
          ball_isSettling = False\<rparr>, st1))"

subsection \<open>Physics and collision engine\<close>

text \<open>The helpers receive the ball, an element of \<^verbatim>\<open>balls\<close>, by reference and assign
  its fields and the variables of the handler: each takes the ball and the state and
  returns both.\<close>

definition applyBallPhysics :: "ball \<Rightarrow> sim \<Rightarrow> ball" where
  "applyBallPhysics ball st =
    (let ball1 = ball\<lparr>ball_vy := ball_vy ball + GRAVITY * scaleFactor st\<rparr>;
         ball2 = ball1\<lparr>ball_x := ball_x ball1 + ball_vx ball1\<rparr>
     in ball2\<lparr>ball_y := ball_y ball2 + ball_vy ball2\<rparr>)"

definition handleBallWallCollisions :: "ball \<Rightarrow> sim \<Rightarrow> ball \<times> sim" where
  "handleBallWallCollisions ball st =
    (let ball1 =
           (if ball_x ball - currentBallRadius st < Num 0
               \<or> ball_x ball + currentBallRadius st > canvas_width st
            then (let b1 = ball\<lparr>ball_vx := ball_vx ball * Num (- 0.5)\<rparr>;
                      b2 = (if ball_x b1 - currentBallRadius st < Num 0
                            then b1\<lparr>ball_x := currentBallRadius st\<rparr> else b1)
                  in (if ball_x b2 + currentBallRadius st > canvas_width st
                      then b2\<lparr>ball_x := canvas_width st - currentBallRadius st\<rparr> else b2))
            else ball);
         (ball2, st2) =
           (if ball_y ball1 - currentBallRadius st > canvas_height st
               \<and> \<not> ball_isSettling ball1 \<and> \<not> ball_landed ball1
            then (ball1\<lparr>ball_landed := True\<rparr>,
                  st\<lparr>ballsBeingDropped := ballsBeingDropped st - 1\<rparr>)
            else (ball1, st));
         ball3 =
           (if ball_y ball2 - currentBallRadius st < Num 0
            then ball2\<lparr>ball_vy := ball_vy ball2 * (- BOUNCE_FACTOR),
                        ball_y := currentBallRadius st\<rparr>
            else ball2)
     in (ball3, st2))"

text \<open>The callback of \<^verbatim>\<open>pegs.forEach\<close> in \<^verbatim>\<open>handleBallPegCollisions\<close>, for one peg.\<close>

definition pegCollision :: "peg \<Rightarrow> ball \<times> sim \<Rightarrow> ball \<times> sim" where
  "pegCollision peg = (\<lambda>(ball, st).
    (let dx = ball_x ball - peg_x peg;
         dy = ball_y ball - peg_y peg;
         distance = Math_sqrt (dx * dx + dy * dy)
     in if distance < currentBallRadius st + currentPegRadius st
        then (let ball1 = ball\<lparr>ball_y := peg_y peg
                             - (currentBallRadius st + currentPegRadius st) * Math_sign dy * Num 0.51\<rparr>;
                  ball2 = ball1\<lparr>ball_vy := ball_vy ball1 * (- BOUNCE_FACTOR)\<rparr>;
                  bump = HORIZONTAL_BUMP * scaleFactor st;
                  (u, st1) = Math_random st;
                  ball3 = (if ball_x ball2 < peg_x peg
                           then ball2\<lparr>ball_vx := (- bump) * u\<rparr>
                           else ball2\<lparr>ball_vx := bump * u\<rparr>);
                  ball4 = (if Math_abs (ball_vx ball3) < Num 0.5 * scaleFactor st
                           then ball3\<lparr>ball_vx := (if ball_x ball3 < peg_x peg then Num (- 1) else Num 1)
                                                    * Num 0.5 * scaleFactor st\<rparr>
                           else ball3)
              in (ball4, st1))
        else (ball, st)))"

definition handleBallPegCollisions :: "ball \<Rightarrow> sim \<Rightarrow> ball \<times> sim" where
  "handleBallPegCollisions ball st = fold pegCollision (pegs st) (ball, st)"

text \<open>The loop over the bins of \<^verbatim>\<open>handleBallBinInteractions\<close>, from index \<open>i\<close> on; it
  returns at the first bin that the ball overlaps.\<close>

function handleBallBinInteractions_loop :: "nat \<Rightarrow> ball \<Rightarrow> sim \<Rightarrow> ball \<times> sim" where
  "handleBallBinInteractions_loop i ball st =
    (if i < length (bins st)
     then (let bin = bins st ! i;
               ballOverlapsBinHorizontally =
                 (ball_x ball + currentBallRadius st > bin_x bin
                  \<and> ball_x ball - currentBallRadius st < bin_x bin + bin_width bin)
           in if ballOverlapsBinHorizontally \<and> ball_y ball + currentBallRadius st \<ge> bin_y bin
              then (if bin_count bin < bin_maxCapacity bin
                    then (ball\<lparr>ball_isSettling := True,
                               ball_vx := Num 0,
                               ball_vy := Num 0,
                               ball_x := bin_x bin + bin_width bin / Num 2,
                               ball_y := bin_y bin + bin_height bin - currentBallRadius st - Num 1\<rparr>,
                          st\<lparr>bins := (bins st)[i := bin\<lparr>bin_count := bin_count bin + 1\<rparr>],
                             ballsBeingDropped := ballsBeingDropped st - 1\<rparr>)
                    else (let ball1 = ball\<lparr>ball_vy := ball_vy ball * (- BOUNCE_FACTOR * Num 0.5)\<rparr>;
                              ball2 = ball1\<lparr>ball_y := bin_y bin - currentBallRadius st - Num 0.1\<rparr>
                          in if Math_abs (ball_vx ball2) < Num 0.1 * scaleFactor st
                             then (let (u, st1) = Math_random st
                                   in (ball2\<lparr>ball_vx := (if u < Num 0.5 then Num (- 1) else Num 1)
                                                          * Num 0.2 * scaleFactor st\<rparr>, st1))
                             else (ball2, st)))
              else handleBallBinInteractions_loop (i + 1) ball st)
     else (ball, st))"
  by pat_completeness auto
termination
  by (relation "measure (\<lambda>(i, ball, st). length (bins st) - i)") auto

declare handleBallBinInteractions_loop.simps [simp del]

definition handleBallBinInteractions :: "ball \<Rightarrow> sim \<Rightarrow> ball \<times> sim" where
  "handleBallBinInteractions ball st =
    (if length (bins st) = 0 \<or> ball_isSettling ball \<or> ball_landed ball then (ball, st)
     else (let bottomOfBall = ball_y ball + currentBallRadius st;
               topOfBins = bin_y (bins st ! 0)
           in if bottomOfBall \<ge> topOfBins
                 \<and> ball_y ball - currentBallRadius st < topOfBins + currentDrawnBinHeight st
              then handleBallBinInteractions_loop 0 ball st
              else (ball, st)))"

subsection \<open>Simulation driver\<close>

text \<open>The callback of \<^verbatim>\<open>balls.forEach\<close> in \<^verbatim>\<open>updateBalls\<close>, for one ball.\<close>

definition updateBall :: "ball \<Rightarrow> sim \<Rightarrow> ball \<times> sim" where
  "updateBall ball st =
    (if ball_landed ball then (ball, st)
     else if ball_isSettling ball then (ball\<lparr>ball_landed := True\<rparr>, st)
     else (let ball1 = applyBallPhysics ball st;
               (ball2, st2) = handleBallWallCollisions ball1 st
           in if ball_landed ball2 then (ball2, st2)
              else (let (ball3, st3) = handleBallPegCollisions ball2 st2
                    in handleBallBinInteractions ball3 st3)))"

text \<open>\<^verbatim>\<open>forEach\<close> visits the balls in order; none of the helpers reads or assigns
  \<^verbatim>\<open>balls\<close>, so the updated balls are written back at the end.\<close>

fun updateBalls_forEach :: "ball list \<Rightarrow> sim \<Rightarrow> ball list \<times> sim" where
  "updateBalls_forEach [] st = ([], st)"
| "updateBalls_forEach (ball # rest) st =
    (let (ball', st1) = updateBall ball st;
         (rest', st2) = updateBalls_forEach rest st1
     in (ball' # rest', st2))"

definition updateBalls :: "sim \<Rightarrow> sim" where
  "updateBalls st = (let (bs, st1) = updateBalls_forEach (balls st) st in st1\<lparr>balls := bs\<rparr>)"

text \<open>A handle is truthy when it is neither \<^verbatim>\<open>null\<close>, \<^verbatim>\<open>undefined\<close> nor 0.\<close>

fun truthy :: "nat option \<Rightarrow> bool" where
  "truthy None = False"
| "truthy (Some h) = (h \<noteq> 0)"

text \<open>\<^verbatim>\<open>requestAnimationFrame\<close> and \<^verbatim>\<open>setInterval\<close> return a fresh handle. Their
  counterparts \<^verbatim>\<open>cancelAnimationFrame\<close> and \<^verbatim>\<open>clearInterval\<close> assign nothing: the program
  clears the variable that held the handle, and an event of the model happens only
  while its handle is set.\<close>

definition requestAnimationFrame :: "sim \<Rightarrow> nat \<times> sim" where
  "requestAnimationFrame st =
    (Suc (last_handle st), st\<lparr>last_handle := Suc (last_handle st)\<rparr>)"

definition setInterval :: "sim \<Rightarrow> nat \<times> sim" where
  "setInterval st = (Suc (last_handle st), st\<lparr>last_handle := Suc (last_handle st)\<rparr>)"

definition stopSimulation :: "sim \<Rightarrow> sim" where
  "stopSimulation st =
    (let st1 = st\<lparr>animationFrameId := None\<rparr>;
         st2 = (if truthy (dropIntervalId st1) then st1\<lparr>dropIntervalId := None\<rparr> else st1)
     in st2\<lparr>startButton_disabled := False,
            numRowsInput_disabled := False,
            numBallsInput_disabled := False,
            binCapacityInput_disabled := False\<rparr>)"

definition gameLoop :: "sim \<Rightarrow> sim" where
  "gameLoop st =
    (let st1 = updateBalls st
     in if ballsBeingDropped st1 > 0 \<or> list_ex (\<lambda>ball. \<not> ball_landed ball) (balls st1)
        then (let (h, st2) = requestAnimationFrame st1 in st2\<lparr>animationFrameId := Some h\<rparr>)
        else stopSimulation st1)"

definition isNaN :: "int option \<Rightarrow> bool" where
  "isNaN v = (num v = NaN)"

definition alert :: "string \<Rightarrow> sim \<Rightarrow> sim" where
  "alert msg st = st\<lparr>alerts := alerts st @ [msg]\<rparr>"

definition validateInputs :: "int option \<Rightarrow> int option \<Rightarrow> int option \<Rightarrow> sim \<Rightarrow> bool \<times> sim" where
  "validateInputs numRows numBalls binCapacity st =
    (if isNaN numRows \<or> num numRows < Num 1 \<or> num numRows > Num 30
     then (False, alert ''Number of rows must be between 1 and 30.'' st)
     else if isNaN numBalls \<or> num numBalls < Num 1 \<or> num numBalls > Num 5000
     then (False, alert ''Number of balls must be between 1 and 5000.'' st)
     else if isNaN binCapacity \<or> num binCapacity < Num 1 \<or> num binCapacity > Num 1000
     then (False, alert ''Bin capacity must be between 1 and 1000.'' st)
     else (True, st))"

definition tryDropBall :: "sim \<Rightarrow> sim" where
  "tryDropBall st =
    (if Num (of_int (ballsDroppedThisSession st)) < num (ballsToDropTotal st)
     then (let (newBall, st1) = createBall st
           in st1\<lparr>balls := balls st1 @ [newBall],
                  ballsBeingDropped := ballsBeingDropped st1 + 1,
                  ballsDroppedThisSession := ballsDroppedThisSession st1 + 1\<rparr>)
     else st\<lparr>dropIntervalId := None\<rparr>)"

definition startSimulation :: "sim \<Rightarrow> sim" where
  "startSimulation st =
    (if truthy (animationFrameId st) then st
     else (let st1 = st\<lparr>NUM_ROWS := numRowsInput_value st,
                        ballsToDropTotal := numBallsInput_value st\<rparr>;
               binCapacityVal = binCapacityInput_value st1;
               (valid, st2) = validateInputs (NUM_ROWS st1) (ballsToDropTotal st1) binCapacityVal st1
           in if \<not> valid then st2
              else (let st3 = initBins (initPegs (resizeCanvas st2));
                        st4 = st3\<lparr>balls := [], ballsBeingDropped := 0\<rparr>;
                        st5 = st4\<lparr>startButton_disabled := True,
                                  numRowsInput_disabled := True,
                                  numBallsInput_disabled := True,
                                  binCapacityInput_disabled := True,
                                  resetButton_disabled := False\<rparr>;
                        st6 = st5\<lparr>ballsDroppedThisSession := 0\<rparr>;
                        (h, st7) = setInterval st6;
                        st8 = st7\<lparr>dropIntervalId := Some h\<rparr>
                    in gameLoop (tryDropBall st8))))"

definition resetSimulation :: "sim \<Rightarrow> sim" where
  "resetSimulation st =
    (let st1 = stopSimulation st;
         st2 = st1\<lparr>balls := [], ballsBeingDropped := 0, ballsToDropTotal := Some 0\<rparr>;
         st3 = initBins (initPegs (resizeCanvas st2))
     in st3\<lparr>startButton_disabled := False,
            numRowsInput_disabled := False,
            numBallsInput_disabled := False,
            binCapacityInput_disabled := False,
            resetButton_disabled := True\<rparr>)"

text \<open>
  After \<^verbatim>\<open>startSimulation\<close> the browser calls \<^verbatim>\<open>gameLoop\<close> once per frame while a frame
  is requested, and \<^verbatim>\<open>tryDropBall\<close> at each period of the spawn timer while the timer is
  set. A run is a list of these events; an event whose handle was cancelled does not
  happen.
\<close>

datatype event = Frame | Spawn

fun fire :: "event \<Rightarrow> sim \<Rightarrow> sim" where
  "fire Frame st = (if truthy (animationFrameId st) then gameLoop st else st)"
| "fire Spawn st = (if truthy (dropIntervalId st) then tryDropBall st else st)"

definition run :: "event list \<Rightarrow> sim \<Rightarrow> sim" where
  "run evs st = fold fire evs st"

section \<open>What the claims speak about\<close>

subsection \<open>Ball lifecycle and accounting\<close>

text \<open>The lifecycle tag of a ball is read off its two flags: \<^verbatim>\<open>landed\<close> is terminal,
  \<^verbatim>\<open>isSettling\<close> without \<^verbatim>\<open>landed\<close> is the tick between capture and finalisation.\<close>

datatype lifecycle = Falling | Settling | Landed

definition lifecycle :: "ball \<Rightarrow> lifecycle" where
  "lifecycle b =
    (if ball_landed b then Landed else if ball_isSettling b then Settling else Falling)"

fun stage :: "lifecycle \<Rightarrow> nat" where
  "stage Falling = 0"
| "stage Settling = 1"
| "stage Landed = 2"

text \<open>A ball is still falling, was captured by a bin (the flag \<^verbatim>\<open>isSettling\<close> is set at
  the capture and never cleared), or fell off the board (landed without capture).\<close>

definition falling :: "ball \<Rightarrow> bool" where
  "falling b = (\<not> ball_isSettling b \<and> \<not> ball_landed b)"

definition captured :: "ball \<Rightarrow> bool" where
  "captured b = ball_isSettling b"

definition fell_off :: "ball \<Rightarrow> bool" where
  "fell_off b = (ball_landed b \<and> \<not> ball_isSettling b)"

definition how_many :: "(ball \<Rightarrow> bool) \<Rightarrow> ball list \<Rightarrow> int" where
  "how_many P bs = int (length (filter P bs))"

definition total_count :: "bin list \<Rightarrow> int" where
  "total_count bs = sum_list (map bin_count bs)"

text \<open>How the bins of a run may differ from earlier ones: they are the same bins, each
  count is at least what it was, and a count that moved is within the capacity.\<close>

definition bins_grow :: "bin list \<Rightarrow> bin list \<Rightarrow> bool" where
  "bins_grow bs bs' =
    (length bs' = length bs
     \<and> (\<forall>i < length bs. bs' ! i = (bs ! i)\<lparr>bin_count := bin_count (bs' ! i)\<rparr>
           \<and> bin_count (bs ! i) \<le> bin_count (bs' ! i)
           \<and> (bin_count (bs' ! i) = bin_count (bs ! i)
               \<or> bin_count (bs' ! i) \<le> bin_maxCapacity (bs ! i))))"

text \<open>The ball has arrived at a bin: the test of the bin loop.\<close>

definition arrives_at :: "ball \<Rightarrow> bin \<Rightarrow> sim \<Rightarrow> bool" where
  "arrives_at ball bin st =
    (ball_x ball + currentBallRadius st > bin_x bin
     \<and> ball_x ball - currentBallRadius st < bin_x bin + bin_width bin
     \<and> ball_y ball + currentBallRadius st \<ge> bin_y bin)"

text \<open>The effect of one ball's update on what the invariants read.\<close>

definition ball_effect :: "ball \<Rightarrow> sim \<Rightarrow> ball \<Rightarrow> sim \<Rightarrow> bool" where
  "ball_effect b st b' st' =
    (stage (lifecycle b) \<le> stage (lifecycle b')
     \<and> (captured b \<longrightarrow> captured b') \<and> (fell_off b \<longrightarrow> fell_off b')
     \<and> total_count (bins st') = total_count (bins st) + of_bool (captured b') - of_bool (captured b)
     \<and> ballsBeingDropped st' = ballsBeingDropped st + of_bool (falling b') - of_bool (falling b)
     \<and> bins_grow (bins st) (bins st'))"

text \<open>The invariant of a run, and what any later state of a run keeps of an earlier one.\<close>

definition run_inv :: "sim \<Rightarrow> bool" where
  "run_inv st =
    (total_count (bins st) = how_many captured (balls st)
     \<and> ballsBeingDropped st = how_many falling (balls st)
     \<and> (\<forall>b \<in> set (bins st). bin_count b \<le> bin_maxCapacity b)
     \<and> ballsDroppedThisSession st = int (length (balls st)))"

definition progress :: "sim \<Rightarrow> sim \<Rightarrow> bool" where
  "progress st st' =
    (bins_grow (bins st) (bins st')
     \<and> length (balls st) \<le> length (balls st')
     \<and> (\<forall>i < length (balls st).
           stage (lifecycle (balls st ! i)) \<le> stage (lifecycle (balls st' ! i))))"

subsection \<open>Starting a run\<close>

text \<open>\<^verbatim>\<open>startSimulation\<close> begins a run when no run is active and \<^verbatim>\<open>validateInputs\<close>
  returns true.\<close>

definition accepts :: "sim \<Rightarrow> bool" where
  "accepts st =
    (\<not> truthy (animationFrameId st)
     \<and> fst (validateInputs (numRowsInput_value st) (numBallsInput_value st)
              (binCapacityInput_value st) st))"

text \<open>The allowed ranges in the words of the specification, and the message for the
  first input that is out of range.\<close>

fun in_range :: "int option \<Rightarrow> int \<Rightarrow> int \<Rightarrow> bool" where
  "in_range None lo hi = False"
| "in_range (Some n) lo hi = (lo \<le> n \<and> n \<le> hi)"

definition validation_message :: "int option \<Rightarrow> int option \<Rightarrow> int option \<Rightarrow> string" where
  "validation_message numRows numBalls binCapacity =
    (if \<not> in_range numRows 1 30 then ''Number of rows must be between 1 and 30.''
     else if \<not> in_range numBalls 1 5000 then ''Number of balls must be between 1 and 5000.''
     else ''Bin capacity must be between 1 and 1000.'')"

subsection \<open>Example states\<close>

text \<open>
  The page after loading in a window 1000 pixels wide, with 1 row, 1 ball and a bin
  capacity of 1 in the input fields, and every call of \<^verbatim>\<open>Math.random()\<close> returning 0.5:
  the scale factor is 1, the drawing surface is 180 by 166, the single peg is at (90, 30)
  and the two bins span 50 to 130 at height 66.
\<close>

definition constant_draws :: "real \<Rightarrow> nat \<Rightarrow> real" where
  "constant_draws u n = u"

definition example_page :: sim where
  "example_page =
    \<lparr>numRowsInput_value = Some 1, numBallsInput_value = Some 1, binCapacityInput_value = Some 1,
     window_innerWidth = Num 1000,
     startButton_disabled = False, resetButton_disabled = True, numRowsInput_disabled = False,
     numBallsInput_disabled = False, binCapacityInput_disabled = False,
     canvas_width = Num 180, canvas_height = Num 166, canvas_style_maxWidth = Num 180,
     NUM_ROWS = Some 1,
     currentPegSpacingX = Num 40, currentPegSpacingY = Num 30, currentStartYOffset = Num 30,
     currentPegRadius = Num 6, currentBallRadius = Num 5, currentDrawnBinHeight = Num 60,
     currentSpaceBelowPegs = Num 30, currentBottomPadding = Num 40, scaleFactor = Num 1,
     pegs = [\<lparr>peg_x = Num 90, peg_y = Num 30, peg_radius = Num 6\<rparr>],
     balls = [],
     bins = [\<lparr>bin_x = Num 50, bin_y = Num 66, bin_width = Num 40, bin_height = Num 60,
              bin_count = 0, bin_maxCapacity = 1\<rparr>,
             \<lparr>bin_x = Num 90, bin_y = Num 66, bin_width = Num 40, bin_height = Num 60,
              bin_count = 0, bin_maxCapacity = 1\<rparr>],
     animationFrameId = None, ballsBeingDropped = 0, ballsToDropTotal = Some 0,
     dropIntervalId = None, ballsDroppedThisSession = 0, alerts = [],
     random_draws = constant_draws (1 / 2), random_next = 0, last_handle = 0\<rparr>"

text \<open>The example page right after \<^verbatim>\<open>startSimulation\<close>: the first ball was spawned at
  (90, 0) and its first tick has put it back under the top edge of the drawing surface.\<close>

definition example_running :: sim where
  "example_running =
    \<lparr>numRowsInput_value = Some 1, numBallsInput_value = Some 1, binCapacityInput_value = Some 1,
     window_innerWidth = Num 1000,
     startButton_disabled = True, resetButton_disabled = False, numRowsInput_disabled = True,
     numBallsInput_disabled = True, binCapacityInput_disabled = True,
     canvas_width = Num 180, canvas_height = Num 166, canvas_style_maxWidth = Num 180,
     NUM_ROWS = Some 1,
     currentPegSpacingX = Num 40, currentPegSpacingY = Num 30, currentStartYOffset = Num 30,
     currentPegRadius = Num 6, currentBallRadius = Num 5, currentDrawnBinHeight = Num 60,
     currentSpaceBelowPegs = Num 30, currentBottomPadding = Num 40, scaleFactor = Num 1,
     pegs = [\<lparr>peg_x = Num 90, peg_y = Num 30, peg_radius = Num 6\<rparr>],
     balls = [\<lparr>ball_x = Num 90, ball_y = Num 5, ball_radius = Num 5, ball_color = BALL_COLOR,
               ball_vx = Num 0, ball_vy = Num (- 0.015), ball_landed = False,
               ball_isSettling = False\<rparr>],
     bins = [\<lparr>bin_x = Num 50, bin_y = Num 66, bin_width = Num 40, bin_height = Num 60,
              bin_count = 0, bin_maxCapacity = 1\<rparr>,
             \<lparr>bin_x = Num 90, bin_y = Num 66, bin_width = Num 40, bin_height = Num 60,
              bin_count = 0, bin_maxCapacity = 1\<rparr>],
     animationFrameId = Some 2, ballsBeingDropped = 1, ballsToDropTotal = Some 1,
     dropIntervalId = Some 1, ballsDroppedThisSession = 1, alerts = [],
     random_draws = constant_draws (1 / 2), random_next = 1, last_handle = 2\<rparr>"

text \<open>The example run 44 frames later: the ball has passed the peg on the right and the
  second bin has just captured it, which fills the bin; and one frame later, when the
  ball is finalised and the run has stopped by itself.\<close>

definition example_captured :: sim where
  "example_captured =
    example_running
      \<lparr>balls := [\<lparr>ball_x = Num 110, ball_y = Num 120, ball_radius = Num 5,
                   ball_color = BALL_COLOR, ball_vx = Num 0, ball_vy = Num 0,
                   ball_landed = False, ball_isSettling = True\<rparr>],
       bins := [\<lparr>bin_x = Num 50, bin_y = Num 66, bin_width = Num 40, bin_height = Num 60,
                  bin_count = 0, bin_maxCapacity = 1\<rparr>,
                 \<lparr>bin_x = Num 90, bin_y = Num 66, bin_width = Num 40, bin_height = Num 60,
                  bin_count = 1, bin_maxCapacity = 1\<rparr>],
       animationFrameId := Some 46, ballsBeingDropped := 0,
       random_next := 14, last_handle := 46\<rparr>"

definition example_finished :: sim where
  "example_finished =
    example_captured
      \<lparr>balls := [\<lparr>ball_x = Num 110, ball_y = Num 120, ball_radius = Num 5,
                   ball_color = BALL_COLOR, ball_vx = Num 0, ball_vy = Num 0,
                   ball_landed = True, ball_isSettling = True\<rparr>],
       animationFrameId := None, dropIntervalId := None,
       startButton_disabled := False, numRowsInput_disabled := False,
       numBallsInput_disabled := False, binCapacityInput_disabled := False\<rparr>"

text \<open>The same page after the row field was changed to 0, which resets the board.\<close>

definition rejected_page :: sim where
  "rejected_page = resetSimulation (example_page\<lparr>numRowsInput_value := Some 0\<rparr>)"

text \<open>Falling balls at rest: one left of the bins whose bottom edge is below the bottom
  of the drawing surface (166) while its top edge is not, one that is wholly below it,
  one 10 above the centre of the peg, in collision with it, and one that has reached the
  top of the second bin.\<close>

definition example_ball :: "real \<Rightarrow> real \<Rightarrow> ball" where
  "example_ball x y =
    \<lparr>ball_x = Num x, ball_y = Num y, ball_radius = Num 5, ball_color = BALL_COLOR,
     ball_vx = Num 0, ball_vy = Num 0, ball_landed = False, ball_isSettling = False\<rparr>"

definition edge_ball :: ball where
  "edge_ball = example_ball 20 163"

definition gone_ball :: ball where
  "gone_ball = example_ball 20 175"

definition above_ball :: ball where
  "above_ball = example_ball 90 20"

definition arriving_ball :: ball where
  "arriving_ball = example_ball 110 62"

definition example_peg :: peg where
  "example_peg = \<lparr>peg_x = Num 90, peg_y = Num 30, peg_radius = Num 6\<rparr>"

section \<open>Proofs\<close>

subsection \<open>Unfolding the model\<close>

lemmas base_defs =
  BASE_PEG_RADIUS_def BASE_BALL_RADIUS_def BASE_PEG_SPACING_X_def BASE_PEG_SPACING_Y_def
  BASE_START_Y_OFFSET_def BASE_DRAWN_BIN_HEIGHT_def BASE_SPACE_BELOW_PEGS_def
  BASE_BOTTOM_PADDING_def CANVAS_MARGIN_LEFT_def CANVAS_MARGIN_RIGHT_def

lemmas physics_defs = GRAVITY_def BOUNCE_FACTOR_def HORIZONTAL_BUMP_def

lemmas model_defs = startSimulation_def validateInputs_def isNaN_def resizeCanvas_def initPegs_def
  initPegs_row_def initBins_def tryDropBall_def createBall_def Math_random_def gameLoop_def
  updateBalls_def updateBall_def applyBallPhysics_def handleBallWallCollisions_def
  handleBallPegCollisions_def pegCollision_def handleBallBinInteractions_def
  handleBallBinInteractions_loop.simps requestAnimationFrame_def setInterval_def stopSimulation_def resetSimulation_def
  alert_def Math_abs_def Math_sign_def base_defs physics_defs BALL_COLOR_def constant_draws_def
  Let_def

lemma sqrt_less_iff: "0 \<le> x \<Longrightarrow> (sqrt x < y) = (0 < y \<and> x < y\<^sup>2)"
proof
  assume x: "0 \<le> x" and l: "sqrt x < y"
  have "0 \<le> sqrt x" using x by simp
  then have y: "0 < y" using l by linarith
  have "(sqrt x)\<^sup>2 < y\<^sup>2" using l \<open>0 \<le> sqrt x\<close> by (intro power_strict_mono) simp_all
  then show "0 < y \<and> x < y\<^sup>2" using x y by simp
next
  assume x: "0 \<le> x" and "0 < y \<and> x < y\<^sup>2"
  then show "sqrt x < y" by (simp add: real_less_lsqrt)
qed

subsection \<open>Geometry layout and board builder\<close>

lemma rows_offset_nonzero: "real_of_int R + 7 / 2 \<noteq> 0"
proof
  assume "real_of_int R + 7 / 2 = 0"
  then have "real_of_int (2 * R + 7) = 0" by simp
  then have "2 * R + 7 = 0" using of_int_eq_0_iff by blast
  then show False by presburger
qed

text \<open>Claim C8. For every row count \<open>R\<close> and available width \<open>W\<close> (the width of the window
  less the two margins of 10), \<^verbatim>\<open>resizeCanvas\<close> sets the final width to the lesser of
  \<open>(R + 3.5) \<cdot> 40\<close> and \<open>W\<close> and the horizontal pitch to that width divided by \<open>R + 3.5\<close>;
  a pitch below \<open>3 \<cdot> 6 = 18\<close> is set to 18 and the width recomputed as \<open>(R + 3.5) \<cdot> 18\<close>;
  the scale factor is the pitch divided by 40, and every other scaled quantity is its
  base value times the scale factor.\<close>

theorem C8_layout:
  assumes "numRowsInput_value st = Some R" and "window_innerWidth st = Num W0"
  shows "let st' = resizeCanvas st;
             W = W0 - 10 - 10;
             rows = real_of_int R + 3.5;
             width0 = min (rows * 40) W;
             pitch0 = width0 / rows;
             pitch = (if pitch0 < 6 * 3 then 6 * 3 else pitch0);
             finalWidth = (if pitch0 < 6 * 3 then rows * pitch else width0);
             s = pitch / 40
         in canvas_width st' = Num finalWidth
          \<and> currentPegSpacingX st' = Num pitch
          \<and> scaleFactor st' = Num s
          \<and> currentPegSpacingY st' = Num (30 * s)
          \<and> currentStartYOffset st' = Num (30 * s)
          \<and> currentPegRadius st' = Num (6 * s)
          \<and> currentBallRadius st' = Num (5 * s)
          \<and> currentDrawnBinHeight st' = Num (60 * s)
          \<and> currentSpaceBelowPegs st' = Num (30 * s)
          \<and> currentBottomPadding st' = Num (40 * s)"
proof -
  define k where "k = real_of_int R + 7 / 2"
  have nz: "k \<noteq> 0" unfolding k_def by (rule rows_offset_nonzero)
  have k: "real_of_int R + 7 / 2 = k" by (simp add: k_def)
  show ?thesis
    using assms nz
    apply (simp add: resizeCanvas_def base_defs Let_def k)
    apply (simp add: min_def divide_simps)
    done
qed

text \<open>The layout of the example page: one row in a window 1000 wide.\<close>

theorem C8_layout_witness:
  "numRowsInput_value example_page = Some 1 \<and> window_innerWidth example_page = Num 1000
   \<and> canvas_width (resizeCanvas example_page) = Num 180
   \<and> currentPegSpacingX (resizeCanvas example_page) = Num 40
   \<and> scaleFactor (resizeCanvas example_page) = Num 1"
proof -
  have a: "numRowsInput_value example_page = Some 1"
    and b: "window_innerWidth example_page = Num 1000" by (simp_all add: example_page_def)
  from C8_layout[OF a b] a b show ?thesis by (simp add: Let_def)
qed

text \<open>After \<^verbatim>\<open>resizeCanvas\<close> on numeric inputs the scale factor is at least 0.45, the
  least pitch 18 over the base pitch 40.\<close>

lemma resizeCanvas_scale_positive:
  assumes "numRowsInput_value st = Some R" and "window_innerWidth st = Num W0"
  shows "\<exists>s. scaleFactor (resizeCanvas st) = Num s \<and> 9 / 20 \<le> s"
proof -
  define k where "k = real_of_int R + 7 / 2"
  have nz: "k \<noteq> 0" unfolding k_def by (rule rows_offset_nonzero)
  have k: "real_of_int R + 7 / 2 = k" by (simp add: k_def)
  define p0 where "p0 = (if W0 - 20 < k * 40 then W0 - 20 else k * 40) / k"
  have "scaleFactor (resizeCanvas st) = Num ((if p0 < 18 then 18 else p0) / 40)"
    using assms nz by (simp add: resizeCanvas_def base_defs Let_def k p0_def)
  moreover have "9 / 20 \<le> (if p0 < 18 then 18 else p0) / 40" by simp
  ultimately show ?thesis by blast
qed

lemma length_concat_rows: "length (concat (map f [0..<n])) = (\<Sum>r<(n::nat). length (f r))"
  by (induction n) (simp_all)

lemma length_initPegs_row: "length (initPegs_row st row) = row + 1"
  by (simp add: initPegs_row_def Let_def)

lemma gauss: "(\<Sum>r<(n::nat). r + 1) = n * (n + 1) div 2"
  by (induction n) simp_all

lemma length_triangle: "length (concat (map (initPegs_row st) [0..<n])) = n * (n + 1) div 2"
  unfolding length_concat_rows length_initPegs_row by (rule gauss)

text \<open>Claim C7. For every row count \<open>R\<close> from 1 to 30 the board builder produces
  \<open>R (R + 1) / 2\<close> pegs, the row \<open>r\<close> (counted from 0) holding \<open>r + 1\<close> of them, and
  \<open>R + 1\<close> bins, each with count 0 and the width of the horizontal peg pitch.\<close>

theorem C7_board_size:
  assumes "NUM_ROWS st = Some R" and "1 \<le> R" and "R \<le> 30"
  shows "pegs (initBins (initPegs st)) = concat (map (initPegs_row st) [0..<nat R])
    \<and> (\<forall>row. length (initPegs_row st row) = row + 1)
    \<and> int (length (pegs (initBins (initPegs st)))) = R * (R + 1) div 2
    \<and> int (length (bins (initBins (initPegs st)))) = R + 1
    \<and> (\<forall>b \<in> set (bins (initBins (initPegs st))).
          bin_count b = 0 \<and> bin_width b = currentPegSpacingX st)"
proof -
  have p: "pegs (initBins (initPegs st)) = concat (map (initPegs_row st) [0..<nat R])"
    using assms(1) by (simp add: initBins_def initPegs_def Let_def)
  have "int (length (concat (map (initPegs_row st) [0..<nat R]))) = int (nat R * (nat R + 1) div 2)"
    by (simp only: length_triangle)
  also have "\<dots> = R * (R + 1) div 2"
    using assms(2) by (simp add: zdiv_int nat_add_distrib algebra_simps)
  finally have n: "int (length (pegs (initBins (initPegs st)))) = R * (R + 1) div 2"
    using p by simp
  have b: "int (length (bins (initBins (initPegs st)))) = R + 1"
    using assms(1,2) by (simp add: initBins_def initPegs_def Let_def)
  have w: "\<forall>b \<in> set (bins (initBins (initPegs st))).
          bin_count b = 0 \<and> bin_width b = currentPegSpacingX st"
    by (auto simp add: initBins_def initPegs_def Let_def)
  show ?thesis using p n b w length_initPegs_row by blast
qed

text \<open>The board of the example page, with one row: one peg and two bins.\<close>

theorem C7_board_size_witness:
  "NUM_ROWS example_page = Some 1 \<and> (1::int) \<le> 1 \<and> (1::int) \<le> 30
   \<and> int (length (pegs (initBins (initPegs example_page)))) = 1 * (1 + 1) div 2
   \<and> int (length (bins (initBins (initPegs example_page)))) = 1 + 1"
proof -
  have a: "NUM_ROWS example_page = Some 1" by (simp add: example_page_def)
  from C7_board_size[OF a] a show ?thesis by simp
qed

subsection \<open>What one ball update does\<close>

lemma how_many_simps [simp]:
  "how_many P [] = 0"
  "how_many P (b # bs) = of_bool (P b) + how_many P bs"
  "how_many P (bs @ cs) = how_many P bs + how_many P cs"
  by (simp_all add: how_many_def)

lemma total_count_update:
  "i < length bs \<Longrightarrow>
   total_count (bs[i := (bs ! i)\<lparr>bin_count := bin_count (bs ! i) + 1\<rparr>]) = total_count bs + 1"
  unfolding total_count_def
proof (induction bs arbitrary: i)
  case Nil then show ?case by simp
next
  case (Cons b bs) then show ?case by (cases i) simp_all
qed

lemma applyBallPhysics_flags [simp]:
  "ball_landed (applyBallPhysics b st) = ball_landed b"
  "ball_isSettling (applyBallPhysics b st) = ball_isSettling b"
  by (simp_all add: applyBallPhysics_def Let_def)

lemma handleBallWallCollisions_effect:
  assumes "handleBallWallCollisions b st = (b', st')"
  shows "ball_isSettling b' = ball_isSettling b"
    and "bins st' = bins st"
    and "falling b \<Longrightarrow> ball_landed b' \<Longrightarrow> ballsBeingDropped st' = ballsBeingDropped st - 1"
    and "falling b \<Longrightarrow> \<not> ball_landed b' \<Longrightarrow> st' = st"
  using assms
  by (auto simp add: handleBallWallCollisions_def Let_def falling_def split: if_splits)

lemma pegCollision_effect:
  assumes "pegCollision p (b, st) = (b', st')"
  shows "ball_isSettling b' = ball_isSettling b \<and> ball_landed b' = ball_landed b
       \<and> bins st' = bins st \<and> ballsBeingDropped st' = ballsBeingDropped st"
  using assms
  by (auto simp add: pegCollision_def Let_def Math_random_def split: if_splits)

lemma fold_pegCollision_effect:
  assumes "fold pegCollision ps (b, st) = (b', st')"
  shows "ball_isSettling b' = ball_isSettling b \<and> ball_landed b' = ball_landed b
       \<and> bins st' = bins st \<and> ballsBeingDropped st' = ballsBeingDropped st"
  using assms
proof (induction ps arbitrary: b st)
  case Nil then show ?case by simp
next
  case (Cons p ps)
  obtain b1 st1 where s: "pegCollision p (b, st) = (b1, st1)" by (cases "pegCollision p (b, st)")
  from Cons.prems have "fold pegCollision ps (b1, st1) = (b', st')" by (simp add: s)
  from Cons.IH[OF this] pegCollision_effect[OF s] show ?case by simp
qed

lemma handleBallPegCollisions_effect:
  assumes "handleBallPegCollisions b st = (b', st')"
  shows "ball_isSettling b' = ball_isSettling b \<and> ball_landed b' = ball_landed b
       \<and> bins st' = bins st \<and> ballsBeingDropped st' = ballsBeingDropped st"
  using assms fold_pegCollision_effect unfolding handleBallPegCollisions_def by blast

lemma handleBallBinInteractions_loop_effect:
  assumes "handleBallBinInteractions_loop i b st = (b', st')"
  shows "ball_landed b' = ball_landed b
       \<and> ((ball_isSettling b' = ball_isSettling b \<and> bins st' = bins st
            \<and> ballsBeingDropped st' = ballsBeingDropped st)
          \<or> (ball_isSettling b' \<and> ballsBeingDropped st' = ballsBeingDropped st - 1
            \<and> (\<exists>j < length (bins st). bin_count (bins st ! j) < bin_maxCapacity (bins st ! j)
                 \<and> bins st' = (bins st)[j := (bins st ! j)\<lparr>bin_count := bin_count (bins st ! j) + 1\<rparr>])))"
  using assms
proof (induction i b st rule: handleBallBinInteractions_loop.induct)
  case (1 i ball st)
  show ?case
  proof (cases "i < length (bins st)")
    case False
    with "1.prems" show ?thesis by (simp add: handleBallBinInteractions_loop.simps)
  next
    case True
    let ?bin = "bins st ! i"
    show ?thesis
    proof (cases "(ball_x ball + currentBallRadius st > bin_x ?bin
                  \<and> ball_x ball - currentBallRadius st < bin_x ?bin + bin_width ?bin)
                  \<and> ball_y ball + currentBallRadius st \<ge> bin_y ?bin")
      case False
      with True "1.prems" have "handleBallBinInteractions_loop (i + 1) ball st = (b', st')"
        by (subst (asm) handleBallBinInteractions_loop.simps) (auto simp add: Let_def split: if_splits)
      with "1.IH"[OF True refl refl] False show ?thesis by blast
    next
      case hit: True
      show ?thesis
      proof (cases "bin_count ?bin < bin_maxCapacity ?bin")
        case room: True
        with True hit "1.prems" show ?thesis
          by (subst (asm) handleBallBinInteractions_loop.simps) (auto simp add: Let_def)
      next
        case full: False
        with True hit "1.prems" show ?thesis
          by (subst (asm) handleBallBinInteractions_loop.simps)
             (auto simp add: Let_def Math_random_def split: if_splits)
      qed
    qed
  qed
qed

lemma handleBallBinInteractions_effect:
  assumes "handleBallBinInteractions b st = (b', st')"
  shows "ball_landed b' = ball_landed b
       \<and> ((ball_isSettling b' = ball_isSettling b \<and> bins st' = bins st
            \<and> ballsBeingDropped st' = ballsBeingDropped st)
          \<or> (falling b \<and> ball_isSettling b' \<and> ballsBeingDropped st' = ballsBeingDropped st - 1
            \<and> (\<exists>j < length (bins st). bin_count (bins st ! j) < bin_maxCapacity (bins st ! j)
                 \<and> bins st' = (bins st)[j := (bins st ! j)\<lparr>bin_count := bin_count (bins st ! j) + 1\<rparr>])))"
proof (cases "length (bins st) = 0 \<or> ball_isSettling b \<or> ball_landed b")
  case True
  with assms show ?thesis by (auto simp add: handleBallBinInteractions_def)
next
  case False
  then have f: "falling b" by (simp add: falling_def)
  from assms False have "handleBallBinInteractions_loop 0 b st = (b', st') \<or> (b', st') = (b, st)"
    by (auto simp add: handleBallBinInteractions_def Let_def split: if_splits)
  then show ?thesis
  proof
    assume "handleBallBinInteractions_loop 0 b st = (b', st')"
    from handleBallBinInteractions_loop_effect[OF this] f show ?thesis by blast
  next
    assume "(b', st') = (b, st)"
    then show ?thesis by simp
  qed
qed

lemma bins_grow_refl: "bins_grow bs bs"
  by (simp add: bins_grow_def)

lemma bins_grow_trans:
  assumes "bins_grow bs bs'" and "bins_grow bs' bs''"
  shows "bins_grow bs bs''"
  unfolding bins_grow_def
proof (intro conjI allI impI)
  show "length bs'' = length bs" using assms by (simp add: bins_grow_def)
next
  fix i assume i: "i < length bs"
  then have i': "i < length bs'" using assms(1) by (simp add: bins_grow_def)
  from assms(1) i have a: "bs' ! i = (bs ! i)\<lparr>bin_count := bin_count (bs' ! i)\<rparr>"
    "bin_count (bs ! i) \<le> bin_count (bs' ! i)"
    "bin_count (bs' ! i) = bin_count (bs ! i) \<or> bin_count (bs' ! i) \<le> bin_maxCapacity (bs ! i)"
    by (simp_all add: bins_grow_def)
  from assms(2) i' have b: "bs'' ! i = (bs' ! i)\<lparr>bin_count := bin_count (bs'' ! i)\<rparr>"
    "bin_count (bs' ! i) \<le> bin_count (bs'' ! i)"
    "bin_count (bs'' ! i) = bin_count (bs' ! i) \<or> bin_count (bs'' ! i) \<le> bin_maxCapacity (bs' ! i)"
    by (simp_all add: bins_grow_def)
  have m: "bin_maxCapacity (bs' ! i) = bin_maxCapacity (bs ! i)"
    by (subst a(1)) simp
  show "bs'' ! i = (bs ! i)\<lparr>bin_count := bin_count (bs'' ! i)\<rparr>"
    by (subst b(1), subst a(1)) simp
  show "bin_count (bs ! i) \<le> bin_count (bs'' ! i)" using a(2) b(2) by linarith
  show "bin_count (bs'' ! i) = bin_count (bs ! i) \<or> bin_count (bs'' ! i) \<le> bin_maxCapacity (bs ! i)"
    using a(3) b(3) m by auto
qed

lemma bins_grow_one_more:
  assumes "j < length bs" and "bin_count (bs ! j) < bin_maxCapacity (bs ! j)"
  shows "bins_grow bs (bs[j := (bs ! j)\<lparr>bin_count := bin_count (bs ! j) + 1\<rparr>])"
  using assms by (auto simp add: bins_grow_def nth_list_update)

lemma bins_grow_within:
  assumes "bins_grow bs bs'" and "\<forall>b \<in> set bs. bin_count b \<le> bin_maxCapacity b"
  shows "\<forall>b \<in> set bs'. bin_count b \<le> bin_maxCapacity b"
proof
  fix b assume "b \<in> set bs'"
  then obtain i where i: "i < length bs'" "b = bs' ! i" by (auto simp add: in_set_conv_nth)
  then have il: "i < length bs" using assms(1) by (simp add: bins_grow_def)
  from assms(1) il have a: "bs' ! i = (bs ! i)\<lparr>bin_count := bin_count (bs' ! i)\<rparr>"
    "bin_count (bs' ! i) = bin_count (bs ! i) \<or> bin_count (bs' ! i) \<le> bin_maxCapacity (bs ! i)"
    by (simp_all add: bins_grow_def)
  have m: "bin_maxCapacity (bs' ! i) = bin_maxCapacity (bs ! i)" by (subst a(1)) simp
  from assms(2) il have "bin_count (bs ! i) \<le> bin_maxCapacity (bs ! i)" by simp
  with a(2) m i show "bin_count b \<le> bin_maxCapacity b" by auto
qed

lemma updateBall_effect:
  assumes "updateBall b st = (b', st')"
  shows "ball_effect b st b' st'"
proof (cases "ball_landed b \<or> ball_isSettling b")
  case True
  with assms show ?thesis
    by (auto simp add: updateBall_def ball_effect_def lifecycle_def captured_def fell_off_def
        falling_def bins_grow_refl split: if_splits)
next
  case False
  then have f: "falling b" by (simp add: falling_def)
  let ?b1 = "applyBallPhysics b st"
  have f1: "falling ?b1" using f by (simp add: falling_def)
  obtain b2 st2 where w: "handleBallWallCollisions ?b1 st = (b2, st2)"
    by (cases "handleBallWallCollisions ?b1 st")
  note we = handleBallWallCollisions_effect[OF w]
  have s2: "\<not> ball_isSettling b2" using we(1) f by (simp add: falling_def)
  show ?thesis
  proof (cases "ball_landed b2")
    case True
    with assms False w have r: "b' = b2" "st' = st2" by (simp_all add: updateBall_def Let_def)
    from we(3)[OF f1 True] we(2) True s2 f r show ?thesis
      by (simp add: ball_effect_def lifecycle_def captured_def fell_off_def falling_def bins_grow_refl)
  next
    case nl: False
    from we(4)[OF f1 nl] have st2: "st2 = st" .
    obtain b3 st3 where p: "handleBallPegCollisions b2 st2 = (b3, st3)"
      by (cases "handleBallPegCollisions b2 st2")
    note pe = handleBallPegCollisions_effect[OF p]
    from assms False w nl p have h: "handleBallBinInteractions b3 st3 = (b', st')"
      by (simp add: updateBall_def Let_def)
    note he = handleBallBinInteractions_effect[OF h]
    have f3: "\<not> ball_isSettling b3" "\<not> ball_landed b3" using pe s2 nl by simp_all
    have l': "\<not> ball_landed b'" using he f3 by simp
    from he show ?thesis
    proof (elim conjE disjE exE)
      assume "ball_isSettling b' = ball_isSettling b3" "bins st' = bins st3"
        "ballsBeingDropped st' = ballsBeingDropped st3"
      with pe st2 f3 l' f show ?thesis
        by (simp add: ball_effect_def lifecycle_def captured_def fell_off_def falling_def bins_grow_refl)
    next
      fix j
      assume a: "ball_isSettling b'" "ballsBeingDropped st' = ballsBeingDropped st3 - 1"
        "j < length (bins st3)" "bin_count (bins st3 ! j) < bin_maxCapacity (bins st3 ! j)"
        "bins st' = (bins st3)[j := (bins st3 ! j)\<lparr>bin_count := bin_count (bins st3 ! j) + 1\<rparr>]"
      have b3: "bins st3 = bins st" using pe st2 by simp
      have c3: "ballsBeingDropped st3 = ballsBeingDropped st" using pe st2 by simp
      have t: "total_count (bins st') = total_count (bins st) + 1"
        using a(3,5) b3 by (simp add: total_count_update)
      have g: "bins_grow (bins st) (bins st')"
        using a(3,4,5) b3 by (simp add: bins_grow_one_more)
      from a(1,2) c3 t g l' f show ?thesis
        by (simp add: ball_effect_def lifecycle_def captured_def fell_off_def falling_def)
    qed
  qed
qed

lemma handleBallWallCollisions_session:
  "handleBallWallCollisions b st = (b', st') \<Longrightarrow> ballsDroppedThisSession st' = ballsDroppedThisSession st"
  by (auto simp add: handleBallWallCollisions_def Let_def split: if_splits)

lemma fold_pegCollision_session:
  "fold pegCollision ps (b, st) = (b', st') \<Longrightarrow> ballsDroppedThisSession st' = ballsDroppedThisSession st"
proof (induction ps arbitrary: b st)
  case Nil then show ?case by simp
next
  case (Cons p ps)
  obtain b1 st1 where s: "pegCollision p (b, st) = (b1, st1)" by (cases "pegCollision p (b, st)")
  then have "ballsDroppedThisSession st1 = ballsDroppedThisSession st"
    by (auto simp add: pegCollision_def Let_def Math_random_def split: if_splits)
  moreover from Cons.prems have "fold pegCollision ps (b1, st1) = (b', st')" by (simp add: s)
  ultimately show ?case using Cons.IH by simp
qed

lemma handleBallBinInteractions_loop_session:
  "handleBallBinInteractions_loop i b st = (b', st') \<Longrightarrow>
   ballsDroppedThisSession st' = ballsDroppedThisSession st"
proof (induction i b st rule: handleBallBinInteractions_loop.induct)
  case (1 i ball st)
  from "1.prems" show ?case
    by (subst (asm) handleBallBinInteractions_loop.simps)
       (auto simp add: Let_def Math_random_def "1.IH" split: if_splits)
qed

lemma updateBall_session:
  assumes "updateBall b st = (b', st')"
  shows "ballsDroppedThisSession st' = ballsDroppedThisSession st"
proof -
  have h: "handleBallBinInteractions b3 st3 = (b', st') \<Longrightarrow>
           ballsDroppedThisSession st' = ballsDroppedThisSession st3" for b3 st3
    by (auto simp add: handleBallBinInteractions_def Let_def
        dest: handleBallBinInteractions_loop_session split: if_splits)
  from assms show ?thesis
    by (auto simp add: updateBall_def Let_def handleBallPegCollisions_def
        dest!: handleBallWallCollisions_session fold_pegCollision_session h
        split: if_splits prod.splits)
qed

lemma full_bin_bounces:
  assumes "i < length (bins st)" and "arrives_at ball (bins st ! i) st"
    and "\<not> bin_count (bins st ! i) < bin_maxCapacity (bins st ! i)"
  shows "bins (snd (handleBallBinInteractions_loop i ball st)) = bins st"
    and "ballsBeingDropped (snd (handleBallBinInteractions_loop i ball st)) = ballsBeingDropped st"
    and "ball_isSettling (fst (handleBallBinInteractions_loop i ball st)) = ball_isSettling ball"
    and "ball_vy (fst (handleBallBinInteractions_loop i ball st))
           = ball_vy ball * (- BOUNCE_FACTOR * Num 0.5)"
    and "ball_y (fst (handleBallBinInteractions_loop i ball st))
           = bin_y (bins st ! i) - currentBallRadius st - Num 0.1"
  using assms
  by (simp_all add: handleBallBinInteractions_loop.simps[of i] arrives_at_def Let_def
      Math_random_def split: prod.splits)

subsection \<open>Frames, spawns and runs\<close>

lemma updateBalls_forEach_effect:
  assumes "updateBalls_forEach bs st = (bs', st')"
  shows "length bs' = length bs
       \<and> (\<forall>i < length bs. stage (lifecycle (bs ! i)) \<le> stage (lifecycle (bs' ! i)))
       \<and> total_count (bins st') = total_count (bins st) + how_many captured bs' - how_many captured bs
       \<and> ballsBeingDropped st' = ballsBeingDropped st + how_many falling bs' - how_many falling bs
       \<and> bins_grow (bins st) (bins st')
       \<and> ballsDroppedThisSession st' = ballsDroppedThisSession st"
  using assms
proof (induction bs arbitrary: st bs' st')
  case Nil
  then show ?case by (simp add: bins_grow_refl)
next
  case (Cons b bs)
  obtain b1 st1 where u: "updateBall b st = (b1, st1)" by (cases "updateBall b st")
  obtain bs1 st2 where r: "updateBalls_forEach bs st1 = (bs1, st2)"
    by (cases "updateBalls_forEach bs st1")
  from Cons.prems u r have res: "bs' = b1 # bs1" "st' = st2" by simp_all
  note e = updateBall_effect[OF u, unfolded ball_effect_def]
  note ih = Cons.IH[OF r]
  have "\<forall>i < length (b # bs). stage (lifecycle ((b # bs) ! i)) \<le> stage (lifecycle ((b1 # bs1) ! i))"
  proof (intro allI impI)
    fix i assume "i < length (b # bs)"
    then show "stage (lifecycle ((b # bs) ! i)) \<le> stage (lifecycle ((b1 # bs1) ! i))"
      using e ih by (cases i) simp_all
  qed
  moreover have "bins_grow (bins st) (bins st2)"
    using e ih bins_grow_trans by blast
  ultimately show ?case
    using e ih updateBall_session[OF u] unfolding res by simp
qed

lemma progress_refl: "progress st st"
  by (simp add: progress_def bins_grow_refl)

lemma progress_trans: "progress st st' \<Longrightarrow> progress st' st'' \<Longrightarrow> progress st st''"
  unfolding progress_def using bins_grow_trans by (meson le_trans less_le_trans)

lemma updateBalls_effect:
  "progress st (updateBalls st) \<and> (run_inv st \<longrightarrow> run_inv (updateBalls st))"
proof -
  obtain bs st1 where f: "updateBalls_forEach (balls st) st = (bs, st1)"
    by (cases "updateBalls_forEach (balls st) st")
  then have u: "updateBalls st = st1\<lparr>balls := bs\<rparr>" by (simp add: updateBalls_def)
  note e = updateBalls_forEach_effect[OF f]
  have "progress st (updateBalls st)" using e by (simp add: u progress_def)
  moreover have "run_inv (updateBalls st)" if "run_inv st"
    using that e bins_grow_within[of "bins st" "bins st1"] by (simp add: u run_inv_def)
  ultimately show ?thesis by simp
qed

lemma stopSimulation_fields [simp]:
  "balls (stopSimulation st) = balls st"
  "bins (stopSimulation st) = bins st"
  "ballsBeingDropped (stopSimulation st) = ballsBeingDropped st"
  "ballsDroppedThisSession (stopSimulation st) = ballsDroppedThisSession st"
  by (simp_all add: stopSimulation_def Let_def)

lemma gameLoop_fields:
  "balls (gameLoop st) = balls (updateBalls st)"
  "bins (gameLoop st) = bins (updateBalls st)"
  "ballsBeingDropped (gameLoop st) = ballsBeingDropped (updateBalls st)"
  "ballsDroppedThisSession (gameLoop st) = ballsDroppedThisSession (updateBalls st)"
  by (simp_all add: gameLoop_def Let_def requestAnimationFrame_def setInterval_def)

lemma gameLoop_effect:
  "progress st (gameLoop st) \<and> (run_inv st \<longrightarrow> run_inv (gameLoop st))"
  using updateBalls_effect[of st] by (simp add: progress_def run_inv_def gameLoop_fields)

lemma createBall_falling:
  "createBall st = (b, st') \<Longrightarrow> lifecycle b = Falling \<and> bins st' = bins st \<and> balls st' = balls st
     \<and> ballsBeingDropped st' = ballsBeingDropped st
     \<and> ballsDroppedThisSession st' = ballsDroppedThisSession st"
  by (auto simp add: createBall_def Let_def Math_random_def lifecycle_def)

lemma tryDropBall_effect:
  "progress st (tryDropBall st) \<and> (run_inv st \<longrightarrow> run_inv (tryDropBall st))
   \<and> (\<forall>i. length (balls st) \<le> i \<and> i < length (balls (tryDropBall st))
          \<longrightarrow> lifecycle (balls (tryDropBall st) ! i) = Falling)"
proof (cases "Num (of_int (ballsDroppedThisSession st)) < num (ballsToDropTotal st)")
  case False
  then have "tryDropBall st = st\<lparr>dropIntervalId := None\<rparr>" by (simp add: tryDropBall_def)
  then show ?thesis by (auto simp add: progress_def run_inv_def bins_grow_refl)
next
  case True
  obtain b st1 where c: "createBall st = (b, st1)" by (cases "createBall st")
  note e = createBall_falling[OF c]
  from True c have t: "tryDropBall st = st1\<lparr>balls := balls st1 @ [b],
      ballsBeingDropped := ballsBeingDropped st1 + 1,
      ballsDroppedThisSession := ballsDroppedThisSession st1 + 1\<rparr>"
    by (simp add: tryDropBall_def)
  have fb: "falling b" "\<not> captured b"
    using e by (auto simp add: lifecycle_def falling_def captured_def split: if_splits)
  have "progress st (tryDropBall st)"
    using e by (simp add: t progress_def bins_grow_refl nth_append)
  moreover have "run_inv (tryDropBall st)" if "run_inv st"
    using that e fb by (simp add: t run_inv_def)
  moreover have "\<forall>i. length (balls st) \<le> i \<and> i < length (balls (tryDropBall st))
          \<longrightarrow> lifecycle (balls (tryDropBall st) ! i) = Falling"
    using e by (auto simp add: t nth_append)
  ultimately show ?thesis by simp
qed

lemma fire_effect:
  "progress st (fire e st) \<and> (run_inv st \<longrightarrow> run_inv (fire e st))"
  using gameLoop_effect[of st] tryDropBall_effect[of st] progress_refl[of st]
  by (cases e) auto

lemma run_effect:
  "progress st (run evs st) \<and> (run_inv st \<longrightarrow> run_inv (run evs st))"
proof (induction evs arbitrary: st)
  case Nil
  then show ?case by (simp add: run_def progress_refl)
next
  case (Cons e evs)
  have r: "run (e # evs) st = run evs (fire e st)" by (simp add: run_def)
  from Cons[of "fire e st"] fire_effect[of st e] show ?case
    unfolding r using progress_trans by blast
qed

lemma run_append: "run (evs @ evs') st = run evs' (run evs st)"
  by (simp add: run_def)

subsection \<open>The start of a run\<close>

lemma validateInputs_True:
  "fst (validateInputs r n c st) \<Longrightarrow>
     validateInputs r n c st' = (True, st')
     \<and> (\<exists>R N C. r = Some R \<and> n = Some N \<and> c = Some C \<and> 1 \<le> R \<and> R \<le> 30
            \<and> 1 \<le> N \<and> N \<le> 5000 \<and> 1 \<le> C \<and> C \<le> 1000)"
  by (cases r; cases n; cases c) (auto simp add: validateInputs_def isNaN_def split: if_splits)

lemma initBins_fields [simp]:
  "balls (initBins st) = balls st"
  "ballsBeingDropped (initBins st) = ballsBeingDropped st"
  "ballsDroppedThisSession (initBins st) = ballsDroppedThisSession st"
  "ballsToDropTotal (initBins st) = ballsToDropTotal st"
  "dropIntervalId (initBins st) = dropIntervalId st"
  "animationFrameId (initBins st) = animationFrameId st"
  by (simp_all add: initBins_def Let_def)

lemma initBins_bins:
  "b \<in> set (bins (initBins st)) \<Longrightarrow>
     bin_count b = 0 \<and> bin_maxCapacity b = or_default (binCapacityInput_value st) 100"
  by (auto simp add: initBins_def Let_def)

lemma initPegs_fields [simp]:
  "binCapacityInput_value (initPegs st) = binCapacityInput_value st"
  by (simp_all add: initPegs_def)

lemma resizeCanvas_fields [simp]:
  "binCapacityInput_value (resizeCanvas st) = binCapacityInput_value st"
  by (simp_all add: resizeCanvas_def Let_def)

lemma total_count_zero: "\<forall>b \<in> set bs. bin_count b = 0 \<Longrightarrow> total_count bs = 0"
  by (induction bs) (simp_all add: total_count_def)

lemma startSimulation_accepted:
  assumes "accepts st"
  shows "\<exists>pre. startSimulation st = gameLoop (tryDropBall pre)
           \<and> balls pre = [] \<and> ballsBeingDropped pre = 0 \<and> ballsDroppedThisSession pre = 0
           \<and> (\<forall>b \<in> set (bins pre). bin_count b = 0 \<and> 1 \<le> bin_maxCapacity b)"
proof -
  from assms have idle: "\<not> truthy (animationFrameId st)"
    and ok: "fst (validateInputs (numRowsInput_value st) (numBallsInput_value st)
              (binCapacityInput_value st) st)"
    by (simp_all add: accepts_def)
  let ?st1 = "st\<lparr>NUM_ROWS := numRowsInput_value st, ballsToDropTotal := numBallsInput_value st\<rparr>"
  from validateInputs_True[OF ok, of ?st1]
  obtain C where v: "validateInputs (numRowsInput_value st) (numBallsInput_value st)
              (binCapacityInput_value st) ?st1 = (True, ?st1)"
    and c: "binCapacityInput_value st = Some C" "1 \<le> C" by blast
  let ?st3 = "initBins (initPegs (resizeCanvas ?st1))"
  let ?pre = "?st3\<lparr>balls := [], ballsBeingDropped := 0,
                  startButton_disabled := True,
                  numRowsInput_disabled := True,
                  numBallsInput_disabled := True,
                  binCapacityInput_disabled := True,
                  resetButton_disabled := False,
                  ballsDroppedThisSession := 0,
                  last_handle := Suc (last_handle ?st3),
                  dropIntervalId := Some (Suc (last_handle ?st3))\<rparr>"
  have s: "startSimulation st = gameLoop (tryDropBall ?pre)"
    using idle v by (simp add: startSimulation_def Let_def requestAnimationFrame_def setInterval_def)
  have b: "\<forall>b \<in> set (bins ?pre). bin_count b = 0 \<and> 1 \<le> bin_maxCapacity b"
  proof
    fix b assume "b \<in> set (bins ?pre)"
    then have "b \<in> set (bins ?st3)" by simp
    from initBins_bins[OF this] c show "bin_count b = 0 \<and> 1 \<le> bin_maxCapacity b" by simp
  qed
  show ?thesis
    by (rule exI[of _ ?pre]) (use s b in simp)
qed

lemma startSimulation_inv:
  assumes "accepts st"
  shows "run_inv (startSimulation st)"
proof -
  from startSimulation_accepted[OF assms] obtain pre where
    s: "startSimulation st = gameLoop (tryDropBall pre)"
    and p: "balls pre = []" "ballsBeingDropped pre = 0" "ballsDroppedThisSession pre = 0"
      "\<forall>b \<in> set (bins pre). bin_count b = 0 \<and> 1 \<le> bin_maxCapacity b"
    by blast
  have "total_count (bins pre) = 0" using p(4) by (simp add: total_count_zero)
  then have "run_inv pre" using p by (auto simp add: run_inv_def)
  then have "run_inv (tryDropBall pre)" using tryDropBall_effect by blast
  then show ?thesis unfolding s using gameLoop_effect by blast
qed

lemma started_inv: "accepts st0 \<Longrightarrow> run_inv (run evs (startSimulation st0))"
  using startSimulation_inv run_effect by blast

lemma lifecycle_partition:
  "how_many captured bs + how_many fell_off bs + how_many falling bs = int (length bs)"
  by (induction bs) (auto simp add: captured_def fell_off_def falling_def)

lemma never_both: "\<not> (captured b \<and> fell_off b)"
  by (simp add: captured_def fell_off_def)

lemma how_many_nonneg: "0 \<le> how_many P bs"
  by (simp add: how_many_def)

subsection \<open>The example states\<close>

lemma example_page_loaded: "resetSimulation example_page = example_page"
  by (simp add: example_page_def model_defs eval_nat_numeral)

lemma example_page_accepts: "accepts example_page"
  by (simp add: accepts_def example_page_def validateInputs_def isNaN_def)

lemma example_started: "startSimulation example_page = example_running"
  by (simp add: example_page_def example_running_def model_defs sqrt_less_iff eval_nat_numeral)

lemma example_captured_run:
  "run (replicate 44 Frame) (startSimulation example_page) = example_captured"
  unfolding example_started
  by (simp add: example_captured_def example_running_def model_defs run_def sqrt_less_iff
      eval_nat_numeral fold_replicate)

lemma example_finished_run:
  "run (replicate 44 Frame @ [Frame]) (startSimulation example_page) = example_finished"
  unfolding run_append example_captured_run
  by (simp add: example_finished_def example_captured_def example_running_def model_defs run_def)

lemma rejected_page_fields:
  "animationFrameId rejected_page = None"
  "numRowsInput_value rejected_page = Some 0"
  "numBallsInput_value rejected_page = Some 1"
  "binCapacityInput_value rejected_page = Some 1"
  "ballsToDropTotal rejected_page = Some 0"
  by (simp_all add: rejected_page_def example_page_def model_defs)

subsection \<open>Validation\<close>

lemma validateInputs_in_range:
  "validateInputs r n c st =
    (if in_range r 1 30 \<and> in_range n 1 5000 \<and> in_range c 1 1000 then (True, st)
     else (False, st\<lparr>alerts := alerts st @ [validation_message r n c]\<rparr>))"
  by (cases r; cases n; cases c)
     (auto simp add: validateInputs_def isNaN_def alert_def validation_message_def)

lemma startSimulation_running: "truthy (animationFrameId st) \<Longrightarrow> startSimulation st = st"
  by (simp add: startSimulation_def)

text \<open>Claim C4, as the code has it. When no run is active and the row count, the ball total
  or the bin capacity is outside its range (1 to 30, 1 to 5000, 1 to 1000) or not a
  number, \<^verbatim>\<open>startSimulation\<close> shows the message for the first such input and starts
  nothing: pegs, bins, balls, layout, handles, counters and the enablement of the controls
  stay as they were. The only variables assigned are \<^verbatim>\<open>NUM_ROWS\<close> and
  \<^verbatim>\<open>ballsToDropTotal\<close>, which take the parsed inputs before the validation.\<close>

theorem C4_rejected_start:
  assumes "\<not> truthy (animationFrameId st)"
    and "\<not> (in_range (numRowsInput_value st) 1 30 \<and> in_range (numBallsInput_value st) 1 5000
            \<and> in_range (binCapacityInput_value st) 1 1000)"
  shows "startSimulation st =
     st\<lparr>NUM_ROWS := numRowsInput_value st,
        ballsToDropTotal := numBallsInput_value st,
        alerts := alerts st @ [validation_message (numRowsInput_value st)
                   (numBallsInput_value st) (binCapacityInput_value st)]\<rparr>"
  using assms by (auto simp add: startSimulation_def validateInputs_in_range Let_def)

text \<open>The rejected start on the page whose row field holds 0.\<close>

theorem C4_rejected_start_witness:
  "\<not> truthy (animationFrameId rejected_page)
   \<and> \<not> in_range (numRowsInput_value rejected_page) 1 30
   \<and> startSimulation rejected_page =
       rejected_page\<lparr>NUM_ROWS := Some 0, ballsToDropTotal := Some 1,
         alerts := alerts rejected_page @ [''Number of rows must be between 1 and 30.'']\<rparr>"
proof -
  have a: "\<not> truthy (animationFrameId rejected_page)"
    by (simp add: rejected_page_fields)
  have b: "\<not> in_range (numRowsInput_value rejected_page) 1 30"
    by (simp add: rejected_page_fields)
  then have c: "\<not> (in_range (numRowsInput_value rejected_page) 1 30
      \<and> in_range (numBallsInput_value rejected_page) 1 5000
      \<and> in_range (binCapacityInput_value rejected_page) 1 1000)" by simp
  from C4_rejected_start[OF a c] a b show ?thesis
    by (simp add: rejected_page_fields validation_message_def)
qed

text \<open>Claim C4 as stated fails: it says that no simulation variable changes, but on the page
  whose row field holds 0 the rejected start changes \<^verbatim>\<open>ballsToDropTotal\<close> from 0 to 1.\<close>

theorem C4_counterexample:
  "\<not> truthy (animationFrameId rejected_page)
   \<and> \<not> in_range (numRowsInput_value rejected_page) 1 30
   \<and> ballsToDropTotal (startSimulation rejected_page) \<noteq> ballsToDropTotal rejected_page"
  by (simp add: rejected_page_fields startSimulation_def validateInputs_in_range Let_def)

subsection \<open>One collision\<close>

lemma handleBallWallCollisions_fell_off:
  assumes "falling ball" and "canvas_height st < ball_y ball - currentBallRadius st"
  shows "ball_landed (fst (handleBallWallCollisions ball st))"
    and "\<not> ball_isSettling (fst (handleBallWallCollisions ball st))"
    and "ballsBeingDropped (snd (handleBallWallCollisions ball st)) = ballsBeingDropped st - 1"
    and "bins (snd (handleBallWallCollisions ball st)) = bins st"
    and "random_next (snd (handleBallWallCollisions ball st)) = random_next st"
  using assms by (simp_all add: handleBallWallCollisions_def Let_def falling_def)

text \<open>Claim C5, as the code has it. In the tick of a falling ball, when after the integration
  the top edge of the ball (centre minus radius) is below the bottom of the drawing
  surface, the wall step marks the ball landed without capture and decrements the active
  ball counter, and the tick ends there: the result is that of the wall step, no bin and
  no random draw is touched.\<close>

theorem C5_fell_off:
  assumes "falling ball"
    and "canvas_height st < ball_y (applyBallPhysics ball st) - currentBallRadius st"
  shows "updateBall ball st = handleBallWallCollisions (applyBallPhysics ball st) st
       \<and> lifecycle (fst (updateBall ball st)) = Landed
       \<and> fell_off (fst (updateBall ball st))
       \<and> ballsBeingDropped (snd (updateBall ball st)) = ballsBeingDropped st - 1
       \<and> bins (snd (updateBall ball st)) = bins st
       \<and> random_next (snd (updateBall ball st)) = random_next st"
proof -
  let ?b1 = "applyBallPhysics ball st"
  have f1: "falling ?b1" using assms(1) by (simp add: falling_def)
  note w = handleBallWallCollisions_fell_off[OF f1 assms(2)]
  obtain b2 st2 where r: "handleBallWallCollisions ?b1 st = (b2, st2)"
    by (cases "handleBallWallCollisions ?b1 st")
  have l: "ball_landed b2" using w(1) by (simp add: r)
  have u: "updateBall ball st = handleBallWallCollisions ?b1 st"
    using assms(1) l by (simp add: updateBall_def Let_def falling_def r)
  show ?thesis using w by (simp add: u lifecycle_def fell_off_def)
qed

text \<open>A ball wholly below the drawing surface of the running example is lost.\<close>

theorem C5_fell_off_witness:
  "falling gone_ball
   \<and> canvas_height example_running
       < ball_y (applyBallPhysics gone_ball example_running) - currentBallRadius example_running
   \<and> fell_off (fst (updateBall gone_ball example_running))
   \<and> ballsBeingDropped (snd (updateBall gone_ball example_running)) = 0"
proof -
  have f: "falling gone_ball"
    by (simp add: gone_ball_def example_ball_def falling_def)
  have h: "canvas_height example_running
       < ball_y (applyBallPhysics gone_ball example_running) - currentBallRadius example_running"
    by (simp add: gone_ball_def example_ball_def example_running_def applyBallPhysics_def
        physics_defs Let_def)
  note t = C5_fell_off[OF f h]
  from t have a: "fell_off (fst (updateBall gone_ball example_running))" by blast
  from t have b: "ballsBeingDropped (snd (updateBall gone_ball example_running))
      = ballsBeingDropped example_running - 1" by blast
  have "ballsBeingDropped example_running = 1" by (simp add: example_running_def)
  with f h a b show ?thesis by simp
qed

text \<open>Claim C5 as stated fails: a falling ball whose bottom edge (centre plus radius) is below
  the bottom of the drawing surface, while its top edge is not, stays falling.\<close>

theorem C5_counterexample:
  "falling edge_ball
   \<and> canvas_height example_running
       < ball_y (applyBallPhysics edge_ball example_running) + currentBallRadius example_running
   \<and> \<not> ball_landed (fst (handleBallWallCollisions (applyBallPhysics edge_ball example_running)
                             example_running))
   \<and> \<not> ball_landed (fst (updateBall edge_ball example_running))"
  by (simp add: edge_ball_def example_ball_def example_running_def falling_def model_defs
      sqrt_less_iff)

text \<open>What the response to a peg collision does to the velocities: the vertical velocity
  is multiplied by \<open>- 0.1\<close>; with \<open>u\<close> the draw of \<^verbatim>\<open>Math.random()\<close>, the horizontal speed
  drawn is \<open>1.5 \<cdot> scaleFactor \<cdot> u\<close>, raised to \<open>0.5 \<cdot> scaleFactor\<close> when below it, and the
  horizontal velocity points away from the peg's centre.\<close>

lemma pegCollision_velocity:
  assumes "ball_x ball = Num x" and "ball_y ball = Num y" and "ball_vy ball = Num vy"
    and "peg_x peg = Num px" and "peg_y peg = Num py"
    and "currentBallRadius st = Num rb" and "currentPegRadius st = Num rp"
    and "scaleFactor st = Num s" and "0 < s"
    and "random_draws st (random_next st) = u" and "0 \<le> u" and "u < 1"
    and "sqrt ((x - px) * (x - px) + (y - py) * (y - py)) < rb + rp"
  shows "let (ball', st') = pegCollision peg (ball, st);
             away = (if x < px then - 1 else 1);
             drawn = 1.5 * s * u
         in ball_vy ball' = Num (vy * (- 0.1))
          \<and> 0 \<le> drawn \<and> drawn < 1.5 * s
          \<and> ball_vx ball' = Num (away * (if drawn < 0.5 * s then 0.5 * s else drawn))
          \<and> ball_x ball' = Num x
          \<and> ball_landed ball' = ball_landed ball \<and> ball_isSettling ball' = ball_isSettling ball
          \<and> random_next st' = Suc (random_next st)"
proof -
  have nn: "\<not> (x - px) * (x - px) + (y - py) * (y - py) < 0"
    by (simp add: not_less)
  have d: "0 \<le> s * u" "s * u < s"
    using assms(9,11,12) by simp_all
  have a: "\<bar>s\<bar> = s" "\<bar>u\<bar> = u" using assms(9,11) by simp_all
  show ?thesis
    using assms(1-8,10,13) nn d a
    by (simp add: pegCollision_def Let_def Math_random_def Math_abs_def Math_sign_def
        physics_defs abs_mult)
qed

text \<open>Where the response puts the ball: at 0.51 of the contact distance from the height of
  the peg's centre, on the side opposite to the one it was on.\<close>

lemma pegCollision_position:
  assumes "ball_x ball = Num x" and "ball_y ball = Num y"
    and "peg_x peg = Num px" and "peg_y peg = Num py"
    and "currentBallRadius st = Num rb" and "currentPegRadius st = Num rp"
    and "sqrt ((x - px) * (x - px) + (y - py) * (y - py)) < rb + rp"
  shows "ball_y (fst (pegCollision peg (ball, st))) = Num (py - (rb + rp) * sgn (y - py) * 0.51)"
proof -
  have nn: "\<not> (x - px) * (x - px) + (y - py) * (y - py) < 0"
    by (simp add: not_less)
  show ?thesis
    using assms nn
    by (simp add: pegCollision_def Let_def Math_random_def Math_abs_def Math_sign_def
        case_prod_beta)
qed

text \<open>Claim C6 says that a peg collision puts the ball just outside the peg along the sign
  of its vertical offset, and the comment above the assignment says that the ball is
  nudged away from the peg to prevent sticking. The code does neither. The ball of radius
  5 at (90, 20) collides with the peg of radius 6 at (90, 30): it is 10 above the centre,
  the contact distance is 11. The response sets its \<open>y\<close> to 35.61: the ball is now below
  the centre of the peg, nearer to it than before (5.61), and the collision test still
  holds for it.\<close>

theorem C6_peg_collision_defect:
  "Math_sqrt ((ball_x above_ball - peg_x example_peg) * (ball_x above_ball - peg_x example_peg)
               + (ball_y above_ball - peg_y example_peg) * (ball_y above_ball - peg_y example_peg))
       = Num 10
   \<and> currentBallRadius example_running + currentPegRadius example_running = Num 11
   \<and> ball_y above_ball < peg_y example_peg
   \<and> ball_y (fst (pegCollision example_peg (above_ball, example_running))) = Num 35.61
   \<and> peg_y example_peg < ball_y (fst (pegCollision example_peg (above_ball, example_running)))
   \<and> Math_sqrt ((ball_x (fst (pegCollision example_peg (above_ball, example_running))) - peg_x example_peg) * (ball_x (fst (pegCollision example_peg (above_ball, example_running))) - peg_x example_peg)
               + (ball_y (fst (pegCollision example_peg (above_ball, example_running))) - peg_y example_peg) * (ball_y (fst (pegCollision example_peg (above_ball, example_running))) - peg_y example_peg))
       = Num 5.61
   \<and> Math_sqrt ((ball_x (fst (pegCollision example_peg (above_ball, example_running))) - peg_x example_peg) * (ball_x (fst (pegCollision example_peg (above_ball, example_running))) - peg_x example_peg)
               + (ball_y (fst (pegCollision example_peg (above_ball, example_running))) - peg_y example_peg) * (ball_y (fst (pegCollision example_peg (above_ball, example_running))) - peg_y example_peg))
       < currentBallRadius example_running + currentPegRadius example_running"
proof -
  have s: "sqrt (314721 / 10000) = 561 / 100"
    by (rule real_sqrt_unique) (simp_all add: power2_eq_square)
  show ?thesis
    by (simp add: above_ball_def example_ball_def example_peg_def example_running_def
        model_defs s)
qed

subsection \<open>Stopping and resetting\<close>

lemma stopSimulation_updates:
  "stopSimulation st =
     st\<lparr>animationFrameId := None,
        dropIntervalId := (if truthy (dropIntervalId st) then None else dropIntervalId st),
        startButton_disabled := False,
        numRowsInput_disabled := False,
        numBallsInput_disabled := False,
        binCapacityInput_disabled := False\<rparr>"
  by (simp add: stopSimulation_def Let_def)

lemma stopSimulation_idem: "stopSimulation (stopSimulation st) = stopSimulation st"
  by (simp add: stopSimulation_def Let_def)

lemma resetSimulation_idem: "resetSimulation (resetSimulation st) = resetSimulation st"
  by (cases st)
     (simp add: resetSimulation_def stopSimulation_updates resizeCanvas_def initPegs_def
        initPegs_row_def [abs_def] initBins_def Let_def split del: if_split cong: if_cong,
      simp)

lemma resetSimulation_handles:
  "animationFrameId (resetSimulation st) = None"
  "dropIntervalId (resetSimulation st) = (if truthy (dropIntervalId st) then None else dropIntervalId st)"
  by (simp_all add: resetSimulation_def stopSimulation_updates resizeCanvas_def initPegs_def
      initBins_def Let_def split del: if_split)

text \<open>Claim C9. \<^verbatim>\<open>stopSimulation\<close>, and \<^verbatim>\<open>resetSimulation\<close> which calls it, leave no frame
  requested and no spawn timer set, so that no further frame or spawn event happens, and
  both are idempotent: a second call returns the state of the first.\<close>

theorem C9_stop_idempotent:
  "animationFrameId (stopSimulation st) = None
   \<and> truthy (dropIntervalId (stopSimulation st)) = False
   \<and> fire e (stopSimulation st) = stopSimulation st
   \<and> stopSimulation (stopSimulation st) = stopSimulation st
   \<and> animationFrameId (resetSimulation st) = None
   \<and> truthy (dropIntervalId (resetSimulation st)) = False
   \<and> fire e (resetSimulation st) = resetSimulation st
   \<and> resetSimulation (resetSimulation st) = resetSimulation st"
proof -
  have a: "animationFrameId (stopSimulation st) = None"
    and b: "truthy (dropIntervalId (stopSimulation st)) = False"
    by (simp_all add: stopSimulation_updates)
  have c: "animationFrameId (resetSimulation st) = None"
    and d: "truthy (dropIntervalId (resetSimulation st)) = False"
    by (simp_all add: resetSimulation_handles)
  have f: "fire e s = s" if "animationFrameId s = None" and "truthy (dropIntervalId s) = False" for s
    using that by (cases e) simp_all
  show ?thesis
    using a b c d f[OF a b] f[OF c d] stopSimulation_idem resetSimulation_idem by simp
qed

text \<open>Two resets of the running example are one reset.\<close>

theorem C9_stop_idempotent_witness:
  "animationFrameId (resetSimulation example_running) = None
   \<and> resetSimulation (resetSimulation example_running) = resetSimulation example_running
   \<and> stopSimulation (stopSimulation example_running) = stopSimulation example_running"
  using C9_stop_idempotent[of example_running Frame] by blast

subsection \<open>The invariants of a run\<close>

text \<open>Claim C1, as the code has it. At every point of a run the counts of the bins add up to
  the number of captured balls, and this sum, the number of balls that fell off the board
  and the number of balls still falling add up to the number of balls spawned so far; no
  ball is both captured and fallen off.\<close>

theorem C1_conservation:
  assumes "accepts st0"
  shows "let st = run evs (startSimulation st0)
         in total_count (bins st) = how_many captured (balls st)
          \<and> total_count (bins st) + how_many fell_off (balls st) + how_many falling (balls st)
              = int (length (balls st))
          \<and> int (length (balls st)) = ballsDroppedThisSession st
          \<and> (\<forall>b \<in> set (balls st). \<not> (captured b \<and> fell_off b))"
proof -
  let ?st = "run evs (startSimulation st0)"
  have i: "run_inv ?st" using assms by (rule started_inv)
  then have c: "total_count (bins ?st) = how_many captured (balls ?st)"
    and s: "ballsDroppedThisSession ?st = int (length (balls ?st))"
    by (simp_all add: run_inv_def)
  from c lifecycle_partition[of "balls ?st"]
  have "total_count (bins ?st) + how_many fell_off (balls ?st) + how_many falling (balls ?st)
      = int (length (balls ?st))" by simp
  with c s never_both show ?thesis by (simp add: Let_def)
qed

text \<open>The accounting at the end of the example run: one ball spawned, one counted by a bin.\<close>

theorem C1_conservation_witness:
  "accepts example_page
   \<and> total_count (bins (run (replicate 44 Frame @ [Frame]) (startSimulation example_page)))
       = how_many captured (balls (run (replicate 44 Frame @ [Frame]) (startSimulation example_page)))
   \<and> total_count (bins (run (replicate 44 Frame @ [Frame]) (startSimulation example_page)))
       + how_many fell_off (balls (run (replicate 44 Frame @ [Frame]) (startSimulation example_page)))
       + how_many falling (balls (run (replicate 44 Frame @ [Frame]) (startSimulation example_page)))
       = int (length (balls (run (replicate 44 Frame @ [Frame]) (startSimulation example_page))))
   \<and> total_count (bins (run (replicate 44 Frame @ [Frame]) (startSimulation example_page))) = 1
   \<and> length (balls (run (replicate 44 Frame @ [Frame]) (startSimulation example_page))) = 1"
proof -
  note t = C1_conservation[OF example_page_accepts, of "replicate 44 Frame @ [Frame]",
      unfolded Let_def]
  have c: "total_count (bins (run (replicate 44 Frame @ [Frame]) (startSimulation example_page))) = 1"
    unfolding example_finished_run
    by (simp add: example_finished_def example_captured_def example_running_def total_count_def)
  have l: "length (balls (run (replicate 44 Frame @ [Frame]) (startSimulation example_page))) = 1"
    unfolding example_finished_run
    by (simp add: example_finished_def example_captured_def example_running_def)
  from t c l example_page_accepts show ?thesis by blast
qed

text \<open>Claim C1 as stated fails while a ball is in flight: right after the start of the
  example run one ball is spawned, no bin has counted it and it has not fallen off.\<close>

theorem C1_counterexample:
  "accepts example_page
   \<and> total_count (bins (startSimulation example_page))
       + how_many fell_off (balls (startSimulation example_page))
     \<noteq> int (length (balls (startSimulation example_page)))"
proof -
  have t: "total_count (bins example_running) = 0"
    by (simp add: example_running_def total_count_def)
  have f: "how_many fell_off (balls example_running) = 0"
    by (simp add: example_running_def how_many_def fell_off_def)
  have l: "length (balls example_running) = 1"
    by (simp add: example_running_def)
  show ?thesis using example_page_accepts by (simp add: example_started t f l)
qed

text \<open>Claim C2. In a run no bin's count exceeds its capacity, the bins of a later state are
  those of an earlier one with counts that are not smaller, and a ball arriving at a bin
  whose count equals the capacity leaves the bins and the counter as they are and
  bounces: its vertical velocity is multiplied by \<open>- 0.1 \<cdot> 0.5\<close> and it is put just above
  the bin.\<close>

theorem C2_capacity:
  assumes "accepts st0"
  shows "let st = run evs (startSimulation st0);
             st' = run evs' st
         in (\<forall>b \<in> set (bins st). bin_count b \<le> bin_maxCapacity b)
          \<and> bins_grow (bins st) (bins st')
          \<and> (\<forall>i < length (bins st).
                bin_count (bins st ! i) \<le> bin_count (bins st' ! i)
                \<and> bin_count (bins st' ! i) \<le> bin_maxCapacity (bins st ! i)
                \<and> (\<forall>ball. arrives_at ball (bins st ! i) st
                      \<and> bin_count (bins st ! i) = bin_maxCapacity (bins st ! i) \<longrightarrow>
                    (let (ball', st2) = handleBallBinInteractions_loop i ball st
                     in bins st2 = bins st
                      \<and> ballsBeingDropped st2 = ballsBeingDropped st
                      \<and> ball_isSettling ball' = ball_isSettling ball
                      \<and> ball_vy ball' = ball_vy ball * (- BOUNCE_FACTOR * Num 0.5)
                      \<and> ball_y ball' = bin_y (bins st ! i) - currentBallRadius st - Num 0.1)))"
proof -
  let ?st = "run evs (startSimulation st0)"
  let ?st' = "run evs' ?st"
  have i: "run_inv ?st" using assms by (rule started_inv)
  then have w: "\<forall>b \<in> set (bins ?st). bin_count b \<le> bin_maxCapacity b"
    by (simp add: run_inv_def)
  have g: "bins_grow (bins ?st) (bins ?st')"
    using run_effect[of ?st evs'] by (simp add: progress_def)
  have m: "bin_count (bins ?st ! i) \<le> bin_count (bins ?st' ! i)
         \<and> bin_count (bins ?st' ! i) \<le> bin_maxCapacity (bins ?st ! i)"
    if "i < length (bins ?st)" for i
  proof -
    from that w have "bin_count (bins ?st ! i) \<le> bin_maxCapacity (bins ?st ! i)" by simp
    with g that show ?thesis by (auto simp add: bins_grow_def)
  qed
  have f: "let (ball', st2) = handleBallBinInteractions_loop i ball ?st
           in bins st2 = bins ?st
            \<and> ballsBeingDropped st2 = ballsBeingDropped ?st
            \<and> ball_isSettling ball' = ball_isSettling ball
            \<and> ball_vy ball' = ball_vy ball * (- BOUNCE_FACTOR * Num 0.5)
            \<and> ball_y ball' = bin_y (bins ?st ! i) - currentBallRadius ?st - Num 0.1"
    if "i < length (bins ?st)" and "arrives_at ball (bins ?st ! i) ?st"
      and "bin_count (bins ?st ! i) = bin_maxCapacity (bins ?st ! i)" for i ball
    using full_bin_bounces[OF that(1,2)] that(3) by (simp add: case_prod_beta)
  have "\<forall>i < length (bins ?st).
          bin_count (bins ?st ! i) \<le> bin_count (bins ?st' ! i)
          \<and> bin_count (bins ?st' ! i) \<le> bin_maxCapacity (bins ?st ! i)
          \<and> (\<forall>ball. arrives_at ball (bins ?st ! i) ?st
                \<and> bin_count (bins ?st ! i) = bin_maxCapacity (bins ?st ! i) \<longrightarrow>
              (let (ball', st2) = handleBallBinInteractions_loop i ball ?st
               in bins st2 = bins ?st
                \<and> ballsBeingDropped st2 = ballsBeingDropped ?st
                \<and> ball_isSettling ball' = ball_isSettling ball
                \<and> ball_vy ball' = ball_vy ball * (- BOUNCE_FACTOR * Num 0.5)
                \<and> ball_y ball' = bin_y (bins ?st ! i) - currentBallRadius ?st - Num 0.1))"
    using m f by blast
  with w g show ?thesis by (simp only: Let_def)
qed

text \<open>The second bin of the example run once it is full: a ball arriving there bounces.\<close>

theorem C2_capacity_witness:
  "accepts example_page
   \<and> arrives_at arriving_ball
        (bins (run (replicate 44 Frame) (startSimulation example_page)) ! 1)
        (run (replicate 44 Frame) (startSimulation example_page))
   \<and> bin_count (bins (run (replicate 44 Frame) (startSimulation example_page)) ! 1)
       = bin_maxCapacity (bins (run (replicate 44 Frame) (startSimulation example_page)) ! 1)
   \<and> bin_count (bins (run [Frame] (run (replicate 44 Frame) (startSimulation example_page))) ! 1)
       \<le> bin_maxCapacity (bins (run (replicate 44 Frame) (startSimulation example_page)) ! 1)
   \<and> bins (snd (handleBallBinInteractions_loop 1 arriving_ball
                  (run (replicate 44 Frame) (startSimulation example_page))))
       = bins (run (replicate 44 Frame) (startSimulation example_page))
   \<and> ball_vy (fst (handleBallBinInteractions_loop 1 arriving_ball
                     (run (replicate 44 Frame) (startSimulation example_page))))
       = ball_vy arriving_ball * (- BOUNCE_FACTOR * Num 0.5)"
proof -
  let ?S = "run (replicate 44 Frame) (startSimulation example_page)"
  note t = C2_capacity[OF example_page_accepts, of "replicate 44 Frame" "[Frame]",
      unfolded Let_def case_prod_beta]
  have l: "1 < length (bins ?S)"
    unfolding example_captured_run by (simp add: example_captured_def example_running_def)
  have a: "arrives_at arriving_ball (bins ?S ! 1) ?S"
    unfolding example_captured_run
    by (simp add: example_captured_def example_running_def arrives_at_def arriving_ball_def
        example_ball_def)
  have f: "bin_count (bins ?S ! 1) = bin_maxCapacity (bins ?S ! 1)"
    unfolding example_captured_run by (simp add: example_captured_def example_running_def)
  from t l a f example_page_accepts show ?thesis by blast
qed

text \<open>Claim C3. Over any sequence of frame and spawn events every ball stays in the list and
  its lifecycle tag only moves forward in the order falling, settling, landed; a ball
  that an event adds to the list is falling.\<close>

theorem C3_lifecycle:
  "(\<forall>i < length (balls st).
      i < length (balls (run evs st))
      \<and> stage (lifecycle (balls st ! i)) \<le> stage (lifecycle (balls (run evs st) ! i)))
   \<and> (\<forall>i. length (balls st) \<le> i \<and> i < length (balls (fire e st))
          \<longrightarrow> lifecycle (balls (fire e st) ! i) = Falling)"
proof -
  have a: "\<forall>i < length (balls st).
      i < length (balls (run evs st))
      \<and> stage (lifecycle (balls st ! i)) \<le> stage (lifecycle (balls (run evs st) ! i))"
    using run_effect[of st evs] by (auto simp add: progress_def)
  have b: "\<forall>i. length (balls st) \<le> i \<and> i < length (balls (fire e st))
          \<longrightarrow> lifecycle (balls (fire e st) ! i) = Falling"
  proof (cases e)
    case Frame
    have "length (balls (gameLoop st)) = length (balls st)"
      using updateBalls_forEach_effect[of "balls st" st]
      by (cases "updateBalls_forEach (balls st) st")
         (simp add: gameLoop_fields updateBalls_def)
    with Frame show ?thesis by auto
  next
    case Spawn
    with tryDropBall_effect[of st] show ?thesis by auto
  qed
  from a b show ?thesis by simp
qed

text \<open>The ball of the example run: falling after the start, settling 44 frames later.\<close>

theorem C3_lifecycle_witness:
  "0 < length (balls (startSimulation example_page))
   \<and> lifecycle (balls (startSimulation example_page) ! 0) = Falling
   \<and> lifecycle (balls (run (replicate 44 Frame) (startSimulation example_page)) ! 0) = Settling
   \<and> stage (lifecycle (balls (startSimulation example_page) ! 0))
       \<le> stage (lifecycle (balls (run (replicate 44 Frame) (startSimulation example_page)) ! 0))"
proof -
  have l: "0 < length (balls (startSimulation example_page))"
    by (simp add: example_started example_running_def)
  have a: "lifecycle (balls (startSimulation example_page) ! 0) = Falling"
    by (simp add: example_started example_running_def lifecycle_def)
  have b: "lifecycle (balls (run (replicate 44 Frame) (startSimulation example_page)) ! 0) = Settling"
    unfolding example_captured_run
    by (simp add: example_captured_def example_running_def lifecycle_def)
  from C3_lifecycle[of "startSimulation example_page" "replicate 44 Frame" Frame] l a b
  show ?thesis by blast
qed

text \<open>Claim C10. In a run \<^verbatim>\<open>ballsBeingDropped\<close> is the number of balls that are neither
  settling nor landed, hence never negative; the update of one ball decrements it exactly
  when that ball stops falling (so not when a settling ball is finalised), and
  \<^verbatim>\<open>tryDropBall\<close> increments it by the number of balls it adds.\<close>

theorem C10_active_counter:
  assumes "accepts st0"
  shows "let st = run evs (startSimulation st0)
         in ballsBeingDropped st = how_many falling (balls st)
          \<and> 0 \<le> ballsBeingDropped st
          \<and> (\<forall>ball. ballsBeingDropped (snd (updateBall ball st))
                      = ballsBeingDropped st
                        - of_bool (falling ball \<and> \<not> falling (fst (updateBall ball st))))
          \<and> ballsBeingDropped (tryDropBall st)
              = ballsBeingDropped st
                + int (length (balls (tryDropBall st))) - int (length (balls st))"
proof -
  let ?st = "run evs (startSimulation st0)"
  have i: "run_inv ?st" using assms by (rule started_inv)
  then have c: "ballsBeingDropped ?st = how_many falling (balls ?st)"
    by (simp add: run_inv_def)
  have u: "ballsBeingDropped (snd (updateBall ball ?st))
      = ballsBeingDropped ?st - of_bool (falling ball \<and> \<not> falling (fst (updateBall ball ?st)))"
    for ball
  proof -
    obtain b' st' where r: "updateBall ball ?st = (b', st')" by (cases "updateBall ball ?st")
    from updateBall_effect[OF r] show ?thesis
      by (auto simp add: r ball_effect_def falling_def lifecycle_def split: if_splits)
  qed
  have t: "ballsBeingDropped (tryDropBall ?st)
      = ballsBeingDropped ?st + int (length (balls (tryDropBall ?st))) - int (length (balls ?st))"
    by (auto simp add: tryDropBall_def createBall_def Math_random_def Let_def)
  from c u t how_many_nonneg[of falling "balls ?st"] show ?thesis by (simp add: Let_def)
qed

text \<open>The counter of the example run: 1 after the start, 0 at the end.\<close>

theorem C10_active_counter_witness:
  "accepts example_page
   \<and> ballsBeingDropped (run (replicate 44 Frame @ [Frame]) (startSimulation example_page))
       = how_many falling (balls (run (replicate 44 Frame @ [Frame]) (startSimulation example_page)))
   \<and> 0 \<le> ballsBeingDropped (run (replicate 44 Frame @ [Frame]) (startSimulation example_page))
   \<and> ballsBeingDropped (startSimulation example_page) = 1
   \<and> ballsBeingDropped (run (replicate 44 Frame @ [Frame]) (startSimulation example_page)) = 0"
proof -
  note t = C10_active_counter[OF example_page_accepts, of "replicate 44 Frame @ [Frame]",
      unfolded Let_def]
  have a: "ballsBeingDropped (startSimulation example_page) = 1"
    by (simp add: example_started example_running_def)
  have b: "ballsBeingDropped (run (replicate 44 Frame @ [Frame]) (startSimulation example_page)) = 0"
    unfolding example_finished_run
    by (simp add: example_finished_def example_captured_def example_running_def)
  from t a b example_page_accepts show ?thesis by blast
qed

end
